theory Spec2Isabelle
  imports Main "HOL-Library.Word"
begin

section \<open>Protocol values\<close>

text \<open>
  The query cache of \<^verbatim>\<open>src/rdb_protocol/query_cache.cc\<close> keeps, per client connection,
  one entry for every token with a query in flight. This theory embeds the functions of
  that file. Types the file only uses (data, responses, compiled terms, streams) are
  declared elsewhere in the repository; they are represented here by what the file
  reads and writes of them.

  Left out, as nothing below depends on them: the registration of the cache in the
  per-thread set of its context (constructor and destructor of \<^verbatim>\<open>query_cache_t\<close>), the
  iterators \<^verbatim>\<open>begin\<close> and \<^verbatim>\<open>end\<close>, and \<^verbatim>\<open>assert_thread\<close>.

  A datum is a JSON-like value. Only its array structure is looked at below: the empty
  backtrace is the empty array.
\<close>

datatype datum_t = R_NULL | R_BOOL bool | R_NUM int | R_STR string | R_ARRAY "datum_t list"

definition EMPTY_BACKTRACE :: datum_t where
  "EMPTY_BACKTRACE = R_ARRAY []"

datatype response_type =
  SUCCESS_ATOM | SUCCESS_SEQUENCE | SUCCESS_PARTIAL | CLIENT_ERROR | COMPILE_ERROR | RUNTIME_ERROR

datatype response_note =
  SEQUENCE_FEED | ATOM_FEED | ORDER_BY_LIMIT_FEED | UNIONED_FEED | Other_note string

text \<open>
  Modelled from the spec: \<^verbatim>\<open>response_t\<close> is declared in \<^verbatim>\<open>rdb_protocol/response.hpp\<close>,
  which is not among the sources. Section 6 of the specification gives its content: a
  type, the data (one datum or an array of datums), a set of notes and an optional
  profile. A response whose type has not been set yet has \<open>res_type = None\<close>.
\<close>

record response_t =
  res_type :: "response_type option"
  res_data :: "datum_t list"
  res_notes :: "response_note list"
  res_profile :: "datum_t option"

definition set_type :: "response_type \<Rightarrow> response_t \<Rightarrow> response_t" where
  "set_type ty res = res\<lparr>res_type := Some ty\<rparr>"

definition set_data :: "datum_t \<Rightarrow> response_t \<Rightarrow> response_t" where
  "set_data d res = res\<lparr>res_data := [d]\<rparr>"

definition set_data_batch :: "datum_t list \<Rightarrow> response_t \<Rightarrow> response_t" where
  "set_data_batch ds res = res\<lparr>res_data := ds\<rparr>"

definition add_note :: "response_note \<Rightarrow> response_t \<Rightarrow> response_t" where
  "add_note n res = res\<lparr>res_notes := res_notes res @ [n]\<rparr>"

definition set_profile :: "datum_t \<Rightarrow> response_t \<Rightarrow> response_t" where
  "set_profile d res = res\<lparr>res_profile := Some d\<rparr>"

definition clear :: "response_t \<Rightarrow> response_t" where
  "clear res = res\<lparr>res_type := None, res_data := [], res_notes := [], res_profile := None\<rparr>"

section \<open>Exceptions\<close>

text \<open>
  The evaluator and the compiler raise \<^verbatim>\<open>interrupted_exc_t\<close>, \<^verbatim>\<open>exc_t\<close> (with a message
  and the identifier of a backtrace in the registry), \<^verbatim>\<open>datum_exc_t\<close> or another
  \<^verbatim>\<open>std::exception\<close>. What leaves the query cache is a \<^verbatim>\<open>bt_exc_t\<close> built by the
  cache, an evaluator exception that no handler caught (\<open>thrown\<close>), or the end of the
  process: a failed \<^verbatim>\<open>guarantee\<close> or a null pointer that is dereferenced (\<open>crashed\<close>).
\<close>

datatype eval_exc =
  interrupted_exc_t | exc_t string nat | datum_exc_t string | std_exception string

datatype exn = bt_exc_t response_type string datum_t | thrown eval_exc | crashed

type_synonym 'a result = "exn + 'a"

type_synonym backtrace_registry_t = "nat \<Rightarrow> datum_t"

definition datum_backtrace :: "backtrace_registry_t \<Rightarrow> nat \<Rightarrow> datum_t" where
  "datum_backtrace reg b = reg b"

subsection \<open>Message formatting\<close>

text \<open>
  \<^verbatim>\<open>strprintf("%" PRIi64, token)\<close> prints the 64-bit token as a signed decimal number.
\<close>

fun show_nat :: "nat \<Rightarrow> string" where
  "show_nat n =
     (if n < 10 then [''0123456789'' ! n]
      else show_nat (n div 10) @ [''0123456789'' ! (n mod 10)])"

declare show_nat.simps [simp del]

definition PRIi64 :: "64 word \<Rightarrow> string" where
  "PRIi64 w = (if sint w < 0 then CHR ''-'' # show_nat (nat (- sint w)) else show_nat (nat (sint w)))"

definition duplicate_token_msg :: "64 word \<Rightarrow> string" where
  "duplicate_token_msg tok = ''ERROR: duplicate token '' @ PRIi64 tok"

definition not_in_stream_cache_msg :: "64 word \<Rightarrow> string" where
  "not_in_stream_cache_msg tok = ''Token '' @ PRIi64 tok @ '' not in stream cache.''"

definition jobs_table_msg :: string where
  "jobs_table_msg = ''Query terminated by the `rethinkdb.jobs` table.''"

section \<open>Entries\<close>

text \<open>
  Compiled terms, term storage, optional arguments and grouped data are opaque to the
  cache. A value of the evaluator is represented by what \<^verbatim>\<open>run\<close> asks of it; a stream
  by what \<^verbatim>\<open>serve\<close> asks of it.
\<close>

type_synonym term_t = string
type_synonym term_storage_t = string
type_synonym global_optargs_t = string
type_synonym grouped_data_t = string

datatype feed_type_t = not_feed | feed_stream | point | orderby_limit | unioned

datatype batch_type_t = NORMAL | NORMAL_FIRST

text \<open>
  A stream, as \<^verbatim>\<open>serve\<close> sees it once a batch has been taken: whether it is exhausted,
  its kind of change feed, and the notes it adds to a response.
\<close>

record datum_stream_t =
  is_exhausted :: bool
  cfeed_type :: feed_type_t
  stream_notes :: "response_note list"

text \<open>
  Modelled from the spec: \<^verbatim>\<open>datum_stream_t::set_notes\<close> is not among the sources. Section
  4.2.2: "Finally let the stream append any additional notes to \<^verbatim>\<open>res\<close>".
\<close>

definition set_notes :: "datum_stream_t \<Rightarrow> response_t \<Rightarrow> response_t" where
  "set_notes s res = res\<lparr>res_notes := res_notes res @ stream_notes s\<rparr>"

record val_t =
  type_name :: string
  is_convertible_DATUM :: bool
  is_convertible_SEQUENCE :: bool
  as_datum :: "eval_exc + datum_t"

datatype state_t = START | STREAM | DONE | DELETING

text \<open>
  The fields of \<^verbatim>\<open>entry_t\<close> that the file reads. \<open>persistent_interruptor\<close> is the
  pulsed flag of the signal. \<open>job_id\<close> and \<open>start_time\<close> (a fresh UUID and the clock, read
  by nothing in this file) and the mutex and drainer (see \<open>ref_t\<close>) are left out.
\<close>

record entry_t =
  state :: state_t
  noreply :: bool
  profile :: bool
  bt_reg :: backtrace_registry_t
  term_storage :: term_storage_t
  global_optargs :: global_optargs_t
  root_term :: "term_t option"
  stream :: "datum_stream_t option"
  has_sent_batch :: bool
  persistent_interruptor :: bool

definition terminate_internal :: "entry_t \<Rightarrow> entry_t" where
  "terminate_internal entry =
     (let entry = (if state entry = START \<or> state entry = STREAM
                   then entry\<lparr>state := DONE\<rparr> else entry)
      in entry\<lparr>persistent_interruptor := True\<rparr>)"

section \<open>Calls into the evaluator\<close>

text \<open>
  The worker is single-threaded and cooperative: a call that takes the evaluation
  environment may suspend the coroutine, and other coroutines act on the entry
  before the call returns or raises. Such a call is given by the actions of the other
  agents while it is suspended, and by its outcome.

  \<open>Terminate_internal\<close> is a call of \<^verbatim>\<open>query_cache_t::terminate_internal\<close> on the entry
  (by \<^verbatim>\<open>terminate_query\<close>, that is a client's STOP, or by any other caller).
\<close>

text \<open>
  Modelled from the spec: the second action, \<open>Pulse_persistent_interruptor\<close>, is the kill
  of the admin jobs table, whose code is not among the sources: it "pulses
  \<^verbatim>\<open>persistent_interruptor\<close> without first marking \<^verbatim>\<open>DONE\<close>" (section 8, scenario 6).
\<close>

datatype agent_action = Terminate_internal | Pulse_persistent_interruptor

type_synonym 'a call = "agent_action list \<times> (eval_exc + 'a)"

fun interfere :: "agent_action \<Rightarrow> entry_t \<Rightarrow> entry_t" where
  "interfere Terminate_internal entry = terminate_internal entry"
| "interfere Pulse_persistent_interruptor entry = entry\<lparr>persistent_interruptor := True\<rparr>"

definition raise :: "eval_exc + 'a \<Rightarrow> 'a result" where
  "raise out = (case out of Inl x \<Rightarrow> Inl (thrown x) | Inr v \<Rightarrow> Inr v)"

definition suspend :: "'a call \<Rightarrow> entry_t \<Rightarrow> 'a result \<times> entry_t" where
  "suspend c entry = (raise (snd c), fold interfere (fst c) entry)"

text \<open>
  The environment of one \<^verbatim>\<open>fill_response\<close>: what the evaluator, the streams and the
  profile trace answer during that call. The three conversions that take no environment
  (\<open>as_datum\<close>, \<open>to_datum_for_client_serialization\<close>, and the accessors of a stream) do
  not suspend.
\<close>

record env_t =
  eval :: "term_t \<Rightarrow> val_t call"
  maybe_as_promiscuous_grouped_data :: "val_t \<Rightarrow> grouped_data_t option call"
  to_datum_for_client_serialization :: "grouped_data_t \<Rightarrow> eval_exc + datum_t"
  as_seq :: "val_t \<Rightarrow> datum_stream_t call"
  as_array :: "datum_stream_t \<Rightarrow> datum_t option call"
  next_batch :: "datum_stream_t \<Rightarrow> batch_type_t \<Rightarrow> (datum_t list \<times> datum_stream_t) call"
  trace_as_datum :: datum_t

section \<open>The access handle\<close>

text \<open>
  A \<^verbatim>\<open>ref_t\<close> points to its entry (an address of the heap, see \<open>query_cache_t\<close> below),
  remembers the token and holds a profile trace when the entry asks for profiling
  (\<open>ref_trace\<close> is \<^verbatim>\<open>trace.has()\<close>). It holds the entry's mutex for its whole life, so
  no other handle runs on the entry meanwhile; waiting for the mutex is not modelled
  beyond its two outcomes (see \<open>ref_ctor\<close>).
\<close>

record ref_t =
  ref_entry :: nat
  ref_token :: "64 word"
  ref_trace :: bool

text \<open>
  Modelled from the spec: the macro \<^verbatim>\<open>rfail_toplevel\<close> is not among the sources. Section
  4.2.1: "Raise \<^verbatim>\<open>Query result must be of type DATUM, GROUPED_DATA, or STREAM (got <name>)\<close>".
  It raises an \<^verbatim>\<open>exc_t\<close> with the message the source formats, at the top-level backtrace
  (identifier 0).
\<close>

definition rfail_toplevel :: "string \<Rightarrow> exn" where
  "rfail_toplevel name =
     thrown (exc_t (''Query result must be of type DATUM, GROUPED_DATA, or STREAM (got ''
                    @ name @ '').'') 0)"

definition run :: "env_t \<Rightarrow> response_t \<Rightarrow> entry_t \<Rightarrow> unit result \<times> response_t \<times> entry_t" where
  "run env res entry =
     (let entry = entry\<lparr>state := DONE\<rparr> in
      case root_term entry of
        None \<Rightarrow> (Inl crashed, res, entry)
      | Some t \<Rightarrow>
         (case suspend (eval env t) entry of
            (Inl x, entry) \<Rightarrow> (Inl x, res, entry)
          | (Inr val, entry) \<Rightarrow>
             if is_convertible_DATUM val then
               (let res = set_type SUCCESS_ATOM res in
                case raise (as_datum val) of
                  Inl x \<Rightarrow> (Inl x, res, entry)
                | Inr d \<Rightarrow> (Inr (), set_data d res, entry))
             else
               (case suspend (maybe_as_promiscuous_grouped_data env val) entry of
                  (Inl x, entry) \<Rightarrow> (Inl x, res, entry)
                | (Inr (Some gd), entry) \<Rightarrow>
                   (case raise (to_datum_for_client_serialization env gd) of
                      Inl x \<Rightarrow> (Inl x, res, entry)
                    | Inr d \<Rightarrow> (Inr (), set_data d (set_type SUCCESS_ATOM res), entry))
                | (Inr None, entry) \<Rightarrow>
                   if is_convertible_SEQUENCE val then
                     (case suspend (as_seq env val) entry of
                        (Inl x, entry) \<Rightarrow> (Inl x, res, entry)
                      | (Inr seq, entry) \<Rightarrow>
                         (case suspend (as_array env seq) entry of
                            (Inl x, entry) \<Rightarrow> (Inl x, res, entry)
                          | (Inr (Some arr), entry) \<Rightarrow>
                             (Inr (), set_data arr (set_type SUCCESS_ATOM res), entry)
                          | (Inr None, entry) \<Rightarrow>
                             (Inr (), res, entry\<lparr>stream := Some seq, has_sent_batch := False,
                                                  state := STREAM\<rparr>)))
                   else (Inl (rfail_toplevel (type_name val)), res, entry))))"

definition serve :: "env_t \<Rightarrow> response_t \<Rightarrow> entry_t \<Rightarrow> unit result \<times> response_t \<times> entry_t" where
  "serve env res entry =
     (case stream entry of
        None \<Rightarrow> (Inl crashed, res, entry)
      | Some s \<Rightarrow>
         (let batch_type = (if has_sent_batch entry then NORMAL else NORMAL_FIRST) in
          case suspend (next_batch env s batch_type) entry of
            (Inl x, entry) \<Rightarrow> (Inl x, res, entry)
          | (Inr (ds, s'), entry) \<Rightarrow>
             (let entry = entry\<lparr>stream := Some s', has_sent_batch := True\<rparr>;
                  res = set_data_batch ds res
              in case (if is_exhausted s' \<or> noreply entry
                       then (if state entry = STREAM
                             then Some (set_type SUCCESS_SEQUENCE res, entry\<lparr>state := DONE\<rparr>)
                             else None)
                       else Some (set_type SUCCESS_PARTIAL res, entry)) of
                   None \<Rightarrow> (Inl crashed, res, entry)
                 | Some (res, entry) \<Rightarrow>
                    (let res = (case cfeed_type s' of
                                  not_feed \<Rightarrow>
                                    if length (res_data res) = 0
                                    then set_type SUCCESS_SEQUENCE res else res
                                | feed_stream \<Rightarrow> add_note SEQUENCE_FEED res
                                | point \<Rightarrow> add_note ATOM_FEED res
                                | orderby_limit \<Rightarrow> add_note ORDER_BY_LIMIT_FEED res
                                | unioned \<Rightarrow> add_note UNIONED_FEED res)
                     in (Inr (), set_notes s' res, entry)))))"

text \<open>Sequencing of statements that may raise: the first exception ends the block.\<close>

definition and_then :: "unit result \<times> 's \<Rightarrow> ('s \<Rightarrow> unit result \<times> 's) \<Rightarrow> unit result \<times> 's" where
  "and_then m f = (case m of (Inl x, s) \<Rightarrow> (Inl x, s) | (Inr u, s) \<Rightarrow> f s)"

text \<open>The last statement of the \<^verbatim>\<open>try\<close> block: the profile is attached when there is a trace.\<close>

definition attach_profile ::
  "ref_t \<Rightarrow> env_t \<Rightarrow> response_t \<times> entry_t \<Rightarrow> unit result \<times> response_t \<times> entry_t" where
  "attach_profile r env =
     (\<lambda>(res, entry). (Inr (), (if ref_trace r then set_profile (trace_as_datum env) res
                                else res), entry))"

text \<open>The \<^verbatim>\<open>try\<close> block of \<^verbatim>\<open>fill_response\<close>.\<close>

definition fill_response_try ::
  "ref_t \<Rightarrow> env_t \<Rightarrow> response_t \<Rightarrow> entry_t \<Rightarrow> unit result \<times> response_t \<times> entry_t" where
  "fill_response_try r env res entry =
     and_then
       (and_then
          (if state entry = START
           then and_then (run env res entry)
                  (\<lambda>(res, entry). (Inr (), res, entry\<lparr>root_term := None\<rparr>))
           else (Inr (), res, entry))
          (\<lambda>(res, entry). if state entry = STREAM then serve env res entry
                           else (Inr (), res, entry)))
       (attach_profile r env)"

text \<open>The \<^verbatim>\<open>catch\<close> clauses of \<^verbatim>\<open>fill_response\<close>, in the order of the source.\<close>

fun fill_response_catch :: "exn \<Rightarrow> response_t \<Rightarrow> entry_t \<Rightarrow> unit result \<times> response_t \<times> entry_t" where
  "fill_response_catch (thrown interrupted_exc_t) res entry =
     (if persistent_interruptor entry then
        (if state entry \<noteq> DONE
         then (Inl (bt_exc_t RUNTIME_ERROR jobs_table_msg EMPTY_BACKTRACE), res, entry)
         else (Inr (), set_type SUCCESS_SEQUENCE (clear res), entry))
      else (Inl (thrown interrupted_exc_t), res, terminate_internal entry))"
| "fill_response_catch (thrown (exc_t what b)) res entry =
     (let entry = terminate_internal entry
      in (Inl (bt_exc_t RUNTIME_ERROR what (datum_backtrace (bt_reg entry) b)), res, entry))"
| "fill_response_catch (thrown (datum_exc_t what)) res entry =
     (let entry = terminate_internal entry
      in (Inl (bt_exc_t RUNTIME_ERROR what EMPTY_BACKTRACE), res, entry))"
| "fill_response_catch (thrown (std_exception what)) res entry =
     (let entry = terminate_internal entry
      in (Inl (bt_exc_t RUNTIME_ERROR what EMPTY_BACKTRACE), res, entry))"
| "fill_response_catch x res entry = (Inl x, res, entry)"

definition fill_response ::
  "ref_t \<Rightarrow> env_t \<Rightarrow> response_t \<Rightarrow> entry_t \<Rightarrow> unit result \<times> response_t \<times> entry_t" where
  "fill_response r env res entry =
     (if state entry \<noteq> START \<and> state entry \<noteq> STREAM then
        (Inl (bt_exc_t CLIENT_ERROR (duplicate_token_msg (ref_token r)) EMPTY_BACKTRACE),
         res, entry)
      else
        (case fill_response_try r env res entry of
           (Inr u, res, entry) \<Rightarrow> (Inr u, res, entry)
         | (Inl x, res, entry) \<Rightarrow> fill_response_catch x res entry))"

section \<open>The query cache\<close>

text \<open>
  \<open>queries\<close> is the map from tokens to entries. The entries live on a heap (\<open>heap\<close>,
  from addresses to entries; \<open>allocated\<close> counts the entries ever allocated and is the
  next fresh address): a handle keeps pointing to its entry after the map has let go
  of it. A slot of the map is a \<^verbatim>\<open>scoped_ptr_t<entry_t>\<close>: the address of the entry it owns,
  or \<open>None\<close> for the null pointer that \<^verbatim>\<open>release()\<close> leaves behind. \<open>spawned\<close> lists the
  coroutines scheduled with \<^verbatim>\<open>coro_t::spawn_sometime\<close>, each by the pointer it will
  \<^verbatim>\<open>delete\<close>. \<open>cache_id\<close> is the identity of the cache, compared with
  the back-pointer of a query-params object.

  \<open>effects\<close> is a history variable, not a field of the source: the effects of the
  cache's own operations on the map, the tracker and the scheduler, in the order in
  which the source performs them.
\<close>

datatype effect =
    Maybe_release_query_id "64 word"
  | Queries_find "64 word"
  | Queries_insert "64 word" nat
  | Queries_release "64 word"
  | Queries_erase "64 word"
  | Spawn_sometime "nat option"
  | Run_until_satisfied "64 word"

record query_cache_t =
  cache_id :: nat
  queries :: "64 word \<rightharpoonup> nat option"
  next_query_id :: "64 word"
  oldest_outstanding_query_id :: "64 word"
  outstanding_query_ids :: "64 word list"
  heap :: "nat \<rightharpoonup> entry_t"
  allocated :: nat
  spawned :: "nat option list"
  effects :: "effect list"

text \<open>
  A query-params object, as the connection hands it to the cache. \<open>id_value\<close> is
  \<^verbatim>\<open>id.value()\<close>; \<open>qp_noreply\<close> and \<open>qp_profile\<close> are its \<^verbatim>\<open>noreply\<close> and \<^verbatim>\<open>profile\<close>
  (the names are taken by the fields of the entry); \<open>query_cache\<close> is the back-pointer
  that every operation compares with the cache (\<^verbatim>\<open>guarantee(this == ...)\<close>).
\<close>

record query_params_t =
  query_cache :: nat
  token :: "64 word"
  id_value :: "64 word"
  qp_noreply :: bool
  qp_profile :: bool
  root_term_json :: string
  global_optargs_json :: string

definition query_cache_ctor :: "nat \<Rightarrow> query_cache_t" where
  "query_cache_ctor i =
     \<lparr>cache_id = i, queries = Map.empty, next_query_id = 0, oldest_outstanding_query_id = 0,
      outstanding_query_ids = [], heap = Map.empty, allocated = 0, spawned = [], effects = []\<rparr>"

definition record_effect :: "effect \<Rightarrow> query_cache_t \<Rightarrow> query_cache_t" where
  "record_effect ev c = c\<lparr>effects := effects c @ [ev]\<rparr>"

subsection \<open>The query-ID tracker\<close>

text \<open>
  Modelled from the spec: the tracker (\<^verbatim>\<open>query_id_t\<close> and \<^verbatim>\<open>maybe_release_query_id\<close>) is
  not among the sources; only the two counters of the cache are. Section 3: it "issues
  strictly increasing u64 IDs to incoming query-params objects and maintains
  \<^verbatim>\<open>oldest_outstanding\<close>: the minimum issued ID that has not yet been released", and
  "\<^verbatim>\<open>oldest_outstanding\<close> equals \<^verbatim>\<open>next_query_id\<close> when no IDs are outstanding".
  The IDs are \<^verbatim>\<open>uint64_t\<close>: the counter wraps at \<open>2 ^ 64\<close> and the order is the unsigned one.
\<close>

definition oldest_of :: "64 word \<Rightarrow> 64 word list \<Rightarrow> 64 word" where
  "oldest_of nxt outs = (case outs of [] \<Rightarrow> nxt | i # rest \<Rightarrow> fold min rest i)"

definition new_query_id :: "query_cache_t \<Rightarrow> 64 word \<times> query_cache_t" where
  "new_query_id c =
     (let i = next_query_id c; outs = outstanding_query_ids c @ [i]
      in (i, c\<lparr>next_query_id := i + 1, outstanding_query_ids := outs,
                oldest_outstanding_query_id := oldest_of (i + 1) outs\<rparr>))"

definition release_query_id :: "64 word \<Rightarrow> query_cache_t \<Rightarrow> query_cache_t" where
  "release_query_id i c =
     (let outs = removeAll i (outstanding_query_ids c)
      in c\<lparr>outstanding_query_ids := outs,
            oldest_outstanding_query_id := oldest_of (next_query_id c) outs\<rparr>)"

definition maybe_release_query_id :: "query_params_t \<Rightarrow> query_cache_t \<Rightarrow> query_cache_t" where
  "maybe_release_query_id query_params c =
     (let c = record_effect (Maybe_release_query_id (id_value query_params)) c
      in if id_value query_params \<in> set (outstanding_query_ids c)
         then release_query_id (id_value query_params) c else c)"

text \<open>
  Modelled from the spec: \<^verbatim>\<open>run_until_satisfied\<close> of the watchable is not among the
  sources. Section 4.1: "block until \<^verbatim>\<open>oldest_outstanding == params.id\<close>, honoring the
  external interruptor". While the caller is blocked, other coroutines issue and
  release query IDs, or the interruptor is pulsed; the list of these events is the
  schedule of the wait. When the schedule ends before the condition holds, the caller is
  still blocked: the result is \<open>None\<close>.
\<close>

datatype wait_event = Interruptor_pulsed | Query_id_issued | Query_id_released "64 word"

fun run_until_satisfied ::
  "(64 word \<Rightarrow> bool) \<Rightarrow> wait_event list \<Rightarrow> query_cache_t \<Rightarrow> unit result option \<times> query_cache_t" where
  "run_until_satisfied P [] c =
     (if P (oldest_outstanding_query_id c) then (Some (Inr ()), c) else (None, c))"
| "run_until_satisfied P (ev # evs) c =
     (if P (oldest_outstanding_query_id c) then (Some (Inr ()), c)
      else case ev of
             Interruptor_pulsed \<Rightarrow> (Some (Inl (thrown interrupted_exc_t)), c)
           | Query_id_issued \<Rightarrow> run_until_satisfied P evs (snd (new_query_id c))
           | Query_id_released i \<Rightarrow> run_until_satisfied P evs (release_query_id i c))"

subsection \<open>Operations on the map\<close>

definition queries_find :: "64 word \<Rightarrow> query_cache_t \<Rightarrow> nat option option \<times> query_cache_t" where
  "queries_find tok c = (queries c tok, record_effect (Queries_find tok) c)"

definition queries_insert :: "64 word \<Rightarrow> nat \<Rightarrow> query_cache_t \<Rightarrow> bool \<times> query_cache_t" where
  "queries_insert tok a c =
     (case queries c tok of
        Some b \<Rightarrow> (False, record_effect (Queries_insert tok a) c)
      | None \<Rightarrow> (True, record_effect (Queries_insert tok a) (c\<lparr>queries := (queries c)(tok \<mapsto> Some a)\<rparr>)))"

text \<open>\<^verbatim>\<open>it->second.release()\<close>, where the iterator \<^verbatim>\<open>it\<close> is at the token \<open>tok\<close> and its slot
  holds the pointer \<open>p\<close>: the slot gives up the pointer, which is the result, and keeps
  the null pointer.\<close>

definition queries_release ::
  "64 word \<Rightarrow> nat option \<Rightarrow> query_cache_t \<Rightarrow> nat option \<times> query_cache_t" where
  "queries_release tok p c =
     (p, record_effect (Queries_release tok) (c\<lparr>queries := (queries c)(tok \<mapsto> None)\<rparr>))"

definition queries_erase :: "64 word \<Rightarrow> query_cache_t \<Rightarrow> query_cache_t" where
  "queries_erase tok c = record_effect (Queries_erase tok) (c\<lparr>queries := (queries c)(tok := None)\<rparr>)"

definition spawn_sometime :: "nat option \<Rightarrow> query_cache_t \<Rightarrow> query_cache_t" where
  "spawn_sometime p c = record_effect (Spawn_sometime p) (c\<lparr>spawned := spawned c @ [p]\<rparr>)"

text \<open>\<^verbatim>\<open>delete entry\<close>: the entry leaves the heap (and nothing happens for the null
  pointer). \<^verbatim>\<open>async_destroy_entry\<close> is what a coroutine scheduled by the destructor of a
  handle runs, later.\<close>

definition delete_entry :: "nat \<Rightarrow> query_cache_t \<Rightarrow> query_cache_t" where
  "delete_entry a c = c\<lparr>heap := (heap c)(a := None)\<rparr>"

definition async_destroy_entry :: "nat option \<Rightarrow> query_cache_t \<Rightarrow> query_cache_t" where
  "async_destroy_entry p c = (case p of None \<Rightarrow> c | Some a \<Rightarrow> delete_entry a c)"

subsection \<open>Construction of entries and handles\<close>

text \<open>
  The \<^verbatim>\<open>try\<close> block of \<^verbatim>\<open>create\<close> builds the term storage and the optional arguments,
  preprocesses the term tree (which fills the backtrace registry) and compiles the root
  term. These four functions are outside the file: \<open>compile\<close> stands for the block, and
  gives the registry as far as it was filled, and either the exception raised or the
  compiled query.
\<close>

record compiled_t =
  c_term_storage :: term_storage_t
  c_global_optargs :: global_optargs_t
  c_root_term :: term_t

type_synonym compile_t = "string \<Rightarrow> string \<Rightarrow> backtrace_registry_t \<times> (eval_exc + compiled_t)"

definition entry_ctor :: "query_params_t \<Rightarrow> backtrace_registry_t \<Rightarrow> compiled_t \<Rightarrow> entry_t" where
  "entry_ctor query_params reg compiled =
     \<lparr>state = START, noreply = qp_noreply query_params, profile = qp_profile query_params,
      bt_reg = reg, term_storage = c_term_storage compiled,
      global_optargs = c_global_optargs compiled, root_term = Some (c_root_term compiled),
      stream = None, has_sent_batch = False, persistent_interruptor = False\<rparr>"

text \<open>
  The constructor of a handle makes the profile trace (section 4.2: "initialize a scoped
  profile trace if the Entry was created with profiling") and waits for the entry's mutex
  with \<^verbatim>\<open>wait_interruptible\<close>, which raises when the external interruptor is pulsed by
  the end of the wait (\<open>interruptor\<close>); nothing has been changed then.
\<close>

definition ref_ctor :: "64 word \<Rightarrow> nat option \<Rightarrow> bool \<Rightarrow> query_cache_t \<Rightarrow> ref_t result" where
  "ref_ctor tok p interruptor c =
     (case p of
        None \<Rightarrow> Inl crashed
      | Some a \<Rightarrow>
         (case heap c a of
            None \<Rightarrow> Inl crashed
          | Some entry \<Rightarrow>
             if interruptor then Inl (thrown interrupted_exc_t)
             else Inr \<lparr>ref_entry = a, ref_token = tok, ref_trace = profile entry\<rparr>))"


subsection \<open>The four operations\<close>

definition create ::
  "query_params_t \<Rightarrow> bool \<Rightarrow> compile_t \<Rightarrow> query_cache_t \<Rightarrow> ref_t result \<times> query_cache_t" where
  "create query_params interruptor compile c =
     (if cache_id c \<noteq> query_cache query_params then (Inl crashed, c) else
      let c = maybe_release_query_id query_params c in
      case queries_find (token query_params) c of
        (Some p, c) \<Rightarrow>
          (Inl (bt_exc_t CLIENT_ERROR (duplicate_token_msg (token query_params))
                  EMPTY_BACKTRACE), c)
      | (None, c) \<Rightarrow>
         (case compile (root_term_json query_params) (global_optargs_json query_params) of
            (reg, Inl (exc_t what b)) \<Rightarrow>
              (Inl (bt_exc_t COMPILE_ERROR what (datum_backtrace reg b)), c)
          | (reg, Inl (datum_exc_t what)) \<Rightarrow>
              (Inl (bt_exc_t COMPILE_ERROR what EMPTY_BACKTRACE), c)
          | (reg, Inl x) \<Rightarrow> (Inl (thrown x), c)
          | (reg, Inr compiled) \<Rightarrow>
             (let a = allocated c;
                  c = c\<lparr>heap := (heap c)(a \<mapsto> entry_ctor query_params reg compiled),
                        allocated := Suc a\<rparr>
              in case ref_ctor (token query_params) (Some a) interruptor c of
                   Inl x \<Rightarrow> (Inl x, delete_entry a c)
                 | Inr r \<Rightarrow>
                    (case queries_insert (token query_params) a c of
                       (False, c) \<Rightarrow> (Inl crashed, c)
                     | (True, c) \<Rightarrow> (Inr r, c)))))"

definition get :: "query_params_t \<Rightarrow> bool \<Rightarrow> query_cache_t \<Rightarrow> ref_t result \<times> query_cache_t" where
  "get query_params interruptor c =
     (if cache_id c \<noteq> query_cache query_params then (Inl crashed, c) else
      let c = maybe_release_query_id query_params c in
      case queries_find (token query_params) c of
        (None, c) \<Rightarrow>
          (Inl (bt_exc_t CLIENT_ERROR (not_in_stream_cache_msg (token query_params))
                  EMPTY_BACKTRACE), c)
      | (Some p, c) \<Rightarrow> (ref_ctor (token query_params) p interruptor c, c))"

definition noreply_wait ::
  "query_params_t \<Rightarrow> wait_event list \<Rightarrow> query_cache_t \<Rightarrow> unit result option \<times> query_cache_t" where
  "noreply_wait query_params schedule c =
     (if cache_id c \<noteq> query_cache query_params then (Some (Inl crashed), c) else
      case queries_find (token query_params) c of
        (Some p, c) \<Rightarrow>
          (Some (Inl (bt_exc_t CLIENT_ERROR (duplicate_token_msg (token query_params))
                        EMPTY_BACKTRACE)), c)
      | (None, c) \<Rightarrow>
          run_until_satisfied (\<lambda>oldest_id_value. oldest_id_value = id_value query_params)
            schedule (record_effect (Run_until_satisfied (id_value query_params)) c))"

definition terminate_query :: "query_params_t \<Rightarrow> query_cache_t \<Rightarrow> unit result \<times> query_cache_t" where
  "terminate_query query_params c =
     (if cache_id c \<noteq> query_cache query_params then (Inl crashed, c) else
      case queries_find (token query_params) c of
        (None, c) \<Rightarrow> (Inr (), c)
      | (Some None, c) \<Rightarrow> (Inl crashed, c)
      | (Some (Some a), c) \<Rightarrow>
         (case heap c a of
            None \<Rightarrow> (Inl crashed, c)
          | Some entry \<Rightarrow> (Inr (), c\<lparr>heap := (heap c)(a \<mapsto> terminate_internal entry)\<rparr>)))"


section \<open>Properties stated below\<close>

text \<open>A first evaluation that answers with one value: the call returns, the response is
  a \<open>SUCCESS_ATOM\<close> carrying the value, and the entry is \<open>DONE\<close>.\<close>

definition answers_atom :: "unit result \<times> response_t \<times> entry_t \<Rightarrow> datum_t \<Rightarrow> bool" where
  "answers_atom out d \<longleftrightarrow>
     fst out = Inr () \<and> res_type (fst (snd out)) = Some SUCCESS_ATOM \<and>
     res_data (fst (snd out)) = [d] \<and> state (snd (snd out)) = DONE"

definition raises_CLIENT_ERROR :: "'a result \<Rightarrow> bool" where
  "raises_CLIENT_ERROR out =
     (case out of Inl (bt_exc_t CLIENT_ERROR msg bt) \<Rightarrow> True | _ \<Rightarrow> False)"

text \<open>An exception of the evaluator or a crash: what the \<^verbatim>\<open>try\<close> block can end with.\<close>

definition no_bt_exc :: "exn \<Rightarrow> bool" where
  "no_bt_exc x = (case x of bt_exc_t ty msg bt \<Rightarrow> False | _ \<Rightarrow> True)"

text \<open>
  The entries that the functions of the file produce: an entry starts as its constructor
  builds it, and is changed by \<^verbatim>\<open>fill_response\<close>, by the other agents, and by the
  destructor of a handle (which marks a \<open>DONE\<close> entry \<open>DELETING\<close>).
\<close>

inductive reachable :: "entry_t \<Rightarrow> bool" where
  created: "reachable (entry_ctor query_params reg compiled)"
| filled: "reachable entry \<Longrightarrow> reachable (snd (snd (fill_response r env res entry)))"
| interfered: "reachable entry \<Longrightarrow> reachable (interfere a entry)"
| deleting: "reachable entry \<Longrightarrow> state entry = DONE \<Longrightarrow> reachable (entry\<lparr>state := DELETING\<rparr>)"

definition entry_inv :: "entry_t \<Rightarrow> bool" where
  "entry_inv entry \<longleftrightarrow>
     (state entry = START \<longrightarrow> root_term entry \<noteq> None \<and> stream entry = None) \<and>
     (state entry = STREAM \<longrightarrow> root_term entry = None \<and> stream entry \<noteq> None)"

text \<open>The stored oldest outstanding ID is the one the outstanding IDs determine.\<close>

definition tracker_inv :: "query_cache_t \<Rightarrow> bool" where
  "tracker_inv c \<longleftrightarrow>
     oldest_outstanding_query_id c = oldest_of (next_query_id c) (outstanding_query_ids c)"

definition same_tracker :: "query_cache_t \<Rightarrow> query_cache_t \<Rightarrow> bool" where
  "same_tracker c c' \<longleftrightarrow>
     outstanding_query_ids c' = outstanding_query_ids c \<and>
     oldest_outstanding_query_id c' = oldest_outstanding_query_id c \<and>
     next_query_id c' = next_query_id c"

section \<open>A sample session\<close>

text \<open>
  A connection on which two query IDs (0 and 1) have been issued; the second belongs to
  a START with token 3 of a long range, which compiles. Its evaluation gives a sequence
  that is not an array, served in batches of two.
\<close>

definition empty_response :: response_t where
  "empty_response = \<lparr>res_type = None, res_data = [], res_notes = [], res_profile = None\<rparr>"

text \<open>A response object that still holds the previous answer on the connection.\<close>

definition stale_response :: response_t where
  "stale_response = \<lparr>res_type = Some SUCCESS_PARTIAL, res_data = [R_NUM 0, R_NUM 1],
                     res_notes = [SEQUENCE_FEED], res_profile = Some R_NULL\<rparr>"

definition ex_params :: query_params_t where
  "ex_params = \<lparr>query_cache = 0, token = 3, id_value = 1, qp_noreply = False, qp_profile = False,
                root_term_json = ''[173,[0,100000]]'', global_optargs_json = ''{}''\<rparr>"

definition ex_reg :: backtrace_registry_t where
  "ex_reg = (\<lambda>b. R_ARRAY [R_NUM (int b)])"

definition ex_compiled :: compiled_t where
  "ex_compiled = \<lparr>c_term_storage = ''[173,[0,100000]]'', c_global_optargs = ''{}'',
                  c_root_term = ''range(0, 100000)''\<rparr>"

definition ex_compile :: compile_t where
  "ex_compile = (\<lambda>root_json optargs_json. (ex_reg, Inr ex_compiled))"

definition ex_compile_fail :: compile_t where
  "ex_compile_fail =
     (\<lambda>root_json optargs_json. (ex_reg, Inl (exc_t ''Expected 2 arguments but found 1.'' 0)))"

definition ex_entry :: entry_t where
  "ex_entry = entry_ctor ex_params ex_reg ex_compiled"

definition ex_ref :: ref_t where
  "ex_ref = \<lparr>ref_entry = 0, ref_token = 3, ref_trace = False\<rparr>"

definition ex_stream :: datum_stream_t where
  "ex_stream = \<lparr>is_exhausted = False, cfeed_type = not_feed, stream_notes = []\<rparr>"

definition ex_streaming :: entry_t where
  "ex_streaming = ex_entry\<lparr>state := STREAM, root_term := None, stream := Some ex_stream\<rparr>"

definition ex_val :: val_t where
  "ex_val = \<lparr>type_name = ''SEQUENCE'', is_convertible_DATUM = False,
             is_convertible_SEQUENCE = True,
             as_datum = Inl (exc_t ''Expected type DATUM but found SEQUENCE.'' 0)\<rparr>"

definition ex_atom :: val_t where
  "ex_atom = \<lparr>type_name = ''DATUM'', is_convertible_DATUM = True,
              is_convertible_SEQUENCE = False, as_datum = Inr (R_NUM 2)\<rparr>"

definition ex_function :: val_t where
  "ex_function = \<lparr>type_name = ''FUNCTION'', is_convertible_DATUM = False,
                  is_convertible_SEQUENCE = False,
                  as_datum = Inl (exc_t ''Expected type DATUM but found FUNCTION.'' 0)\<rparr>"

definition ex_env :: env_t where
  "ex_env = \<lparr>eval = (\<lambda>t. ([], Inr ex_val)),
             maybe_as_promiscuous_grouped_data = (\<lambda>v. ([], Inr None)),
             to_datum_for_client_serialization = (\<lambda>gd. Inr (R_ARRAY [])),
             as_seq = (\<lambda>v. ([], Inr ex_stream)),
             as_array = (\<lambda>s. ([], Inr None)),
             next_batch = (\<lambda>s b. ([], Inr ([R_NUM 0, R_NUM 1], s))),
             trace_as_datum = R_NULL\<rparr>"

text \<open>The same evaluator where the root term gives the number 2, and where it gives a
  function.\<close>

definition ex_env_atom :: env_t where
  "ex_env_atom = ex_env\<lparr>eval := (\<lambda>t. ([], Inr ex_atom))\<rparr>"

definition ex_env_function :: env_t where
  "ex_env_function = ex_env\<lparr>eval := (\<lambda>t. ([], Inr ex_function))\<rparr>"

text \<open>The evaluation of the root term fails.\<close>

definition ex_env_fail :: env_t where
  "ex_env_fail = ex_env\<lparr>eval := (\<lambda>t. ([], Inl (exc_t ''Cannot divide by zero.'' 4)))\<rparr>"

text \<open>\<^verbatim>\<open>terminate_internal\<close> is called on the entry while the root term is evaluated.\<close>

definition ex_env_stop_eval :: env_t where
  "ex_env_stop_eval = ex_env\<lparr>eval := (\<lambda>t. ([Terminate_internal], Inl interrupted_exc_t))\<rparr>"

text \<open>While the next batch is produced: \<^verbatim>\<open>terminate_internal\<close> is called on the entry
  (\<open>ex_env_stop\<close>), the persistent interruptor is pulsed directly (\<open>ex_env_kill\<close>), the
  external interruptor fires (\<open>ex_env_timeout\<close>), the stream ends (\<open>ex_env_last\<close>).\<close>

definition ex_env_stop :: env_t where
  "ex_env_stop = ex_env\<lparr>next_batch := (\<lambda>s b. ([Terminate_internal], Inl interrupted_exc_t))\<rparr>"

definition ex_env_kill :: env_t where
  "ex_env_kill =
     ex_env\<lparr>next_batch := (\<lambda>s b. ([Pulse_persistent_interruptor], Inl interrupted_exc_t))\<rparr>"

definition ex_env_timeout :: env_t where
  "ex_env_timeout = ex_env\<lparr>next_batch := (\<lambda>s b. ([], Inl interrupted_exc_t))\<rparr>"

definition ex_env_last :: env_t where
  "ex_env_last =
     ex_env\<lparr>next_batch := (\<lambda>s b. ([], Inr ([R_NUM 99999], s\<lparr>is_exhausted := True\<rparr>)))\<rparr>"

text \<open>\<^verbatim>\<open>terminate_internal\<close> is called on the entry while the last batch is produced, and
  the batch arrives all the same.\<close>

definition ex_env_last_stopped :: env_t where
  "ex_env_last_stopped =
     ex_env\<lparr>next_batch := (\<lambda>s b. ([Terminate_internal],
                                     Inr ([R_NUM 99999], s\<lparr>is_exhausted := True\<rparr>)))\<rparr>"

text \<open>\<^verbatim>\<open>terminate_internal\<close> is called on the entry while the root term is evaluated; the
  evaluation returns its sequence all the same, and the request for the first batch is
  interrupted.\<close>

definition ex_env_stop_then_stream :: env_t where
  "ex_env_stop_then_stream =
     ex_env\<lparr>eval := (\<lambda>t. ([Terminate_internal], Inr ex_val)),
            next_batch := (\<lambda>s b. ([], Inl interrupted_exc_t))\<rparr>"

definition ex_cache :: query_cache_t where
  "ex_cache = snd (new_query_id (snd (new_query_id (query_cache_ctor 0))))"

text \<open>After the START has been created, and after it has been answered with an atom.\<close>

definition ex_cache_created :: query_cache_t where
  "ex_cache_created = snd (create ex_params False ex_compile ex_cache)"


section \<open>Basic facts\<close>

lemmas res_unfold = set_type_def set_data_def set_data_batch_def add_note_def set_profile_def
  set_notes_def clear_def

lemmas cache_unfold = maybe_release_query_id_def release_query_id_def queries_find_def
  queries_insert_def queries_release_def queries_erase_def spawn_sometime_def delete_entry_def async_destroy_entry_def record_effect_def Let_def

lemmas ex_defs = empty_response_def stale_response_def ex_params_def ex_reg_def ex_compiled_def ex_compile_def
  ex_compile_fail_def ex_entry_def ex_ref_def ex_stream_def ex_streaming_def ex_val_def
  ex_atom_def ex_function_def ex_env_def ex_env_atom_def ex_env_function_def ex_env_fail_def ex_env_stop_eval_def ex_env_stop_def
  ex_env_kill_def ex_env_timeout_def ex_env_last_def ex_env_last_stopped_def
  ex_env_stop_then_stream_def entry_ctor_def

subsection \<open>The other agents\<close>

text \<open>Whatever the other agents do while a call is suspended, only the state and the
  interruptor of the entry change, and in one way.\<close>

lemma fold_interfere:
  "fold interfere acts entry =
     entry\<lparr>state := (if Terminate_internal \<in> set acts \<and> (state entry = START \<or> state entry = STREAM)
                      then DONE else state entry),
           persistent_interruptor := (persistent_interruptor entry \<or> acts \<noteq> [])\<rparr>"
proof (induction acts arbitrary: entry)
  case Nil
  then show ?case by simp
next
  case (Cons a acts)
  show ?case
    by (cases a) (auto simp add: Cons.IH terminate_internal_def Let_def)
qed

lemmas run_unfold = run_def suspend_def fold_interfere raise_def Let_def

lemmas fill_unfold = fill_response_def fill_response_try_def and_then_def attach_profile_def

subsection \<open>The first evaluation, case by case\<close>

lemma run_eval_raises:
  assumes "root_term entry = Some t" and "eval env t = (acts, Inl x)"
  shows "\<exists>e'. run env res entry = (Inl (thrown x), res, e') \<and> state e' = DONE \<and>
           root_term e' = Some t"
  using assms by (simp add: run_unfold)

lemma fill_response_datum:
  assumes "state entry = START" and "root_term entry = Some t" and "eval env t = (acts, Inr val)"
    and "is_convertible_DATUM val" and "as_datum val = Inr d"
  shows "answers_atom (fill_response r env res entry) d"
  using assms
  by (simp add: answers_atom_def fill_unfold run_unfold res_unfold)

lemma fill_response_grouped:
  assumes "state entry = START" and "root_term entry = Some t" and "eval env t = (acts, Inr val)"
    and "\<not> is_convertible_DATUM val"
    and "maybe_as_promiscuous_grouped_data env val = (acts2, Inr (Some gd))"
    and "to_datum_for_client_serialization env gd = Inr d"
  shows "answers_atom (fill_response r env res entry) d"
  using assms
  by (simp add: answers_atom_def fill_unfold run_unfold res_unfold)

lemma fill_response_array:
  assumes "state entry = START" and "root_term entry = Some t" and "eval env t = (acts, Inr val)"
    and "\<not> is_convertible_DATUM val"
    and "maybe_as_promiscuous_grouped_data env val = (acts2, Inr None)"
    and "is_convertible_SEQUENCE val" and "as_seq env val = (acts3, Inr seq)"
    and "as_array env seq = (acts4, Inr (Some arr))"
  shows "answers_atom (fill_response r env res entry) arr"
  using assms
  by (simp add: answers_atom_def fill_unfold run_unfold res_unfold)

lemma fill_response_stream:
  assumes "state entry = START" and "root_term entry = Some t" and "eval env t = (acts, Inr val)"
    and "\<not> is_convertible_DATUM val"
    and "maybe_as_promiscuous_grouped_data env val = (acts2, Inr None)"
    and "is_convertible_SEQUENCE val" and "as_seq env val = (acts3, Inr seq)"
    and "as_array env seq = (acts4, Inr None)"
  shows "\<exists>e'. run env res entry = (Inr (), res, e') \<and> stream e' = Some seq \<and>
           \<not> has_sent_batch e' \<and> state e' = STREAM \<and>
           fill_response_try r env res entry =
             and_then (serve env res (e'\<lparr>root_term := None\<rparr>)) (attach_profile r env)"
  using assms
  by (simp add: fill_response_try_def and_then_def run_unfold)

lemma fill_response_other:
  assumes "state entry = START" and "root_term entry = Some t" and "eval env t = (acts, Inr val)"
    and "\<not> is_convertible_DATUM val"
    and "maybe_as_promiscuous_grouped_data env val = (acts2, Inr None)"
    and "\<not> is_convertible_SEQUENCE val"
  shows "\<exists>e'. fill_response r env res entry =
           (Inl (bt_exc_t RUNTIME_ERROR
                  (''Query result must be of type DATUM, GROUPED_DATA, or STREAM (got ''
                   @ type_name val @ '').'')
                  (datum_backtrace (bt_reg entry) 0)), res, e') \<and> state e' = DONE"
  using assms
  by (simp add: fill_unfold run_unfold rfail_toplevel_def terminate_internal_def)

subsection \<open>What a call can do to the entry\<close>

lemma run_cases:
  "\<exists>out res' e'. run env res entry = (out, res', e') \<and>
     noreply e' = noreply entry \<and>
     ((out \<noteq> Inr () \<and> state e' = DONE \<and> root_term e' = root_term entry \<and> stream e' = stream entry)
      \<or> (out = Inr () \<and> state e' = DONE \<and> root_term e' = root_term entry \<and> stream e' = stream entry)
      \<or> (out = Inr () \<and> state e' = STREAM \<and> root_term e' = root_term entry \<and> stream e' \<noteq> None))"
  by (auto simp add: run_unfold rfail_toplevel_def split: option.splits sum.splits prod.splits)

lemma serve_cases:
  "\<exists>out res' e'. serve env res entry = (out, res', e') \<and> root_term e' = root_term entry \<and>
     (state e' = state entry \<or> state e' = DONE) \<and> (stream entry \<noteq> None \<longrightarrow> stream e' \<noteq> None)"
  by (auto simp add: serve_def run_unfold split: option.splits sum.splits prod.splits)

lemma catch_cases:
  "\<exists>out res' e'. fill_response_catch x res entry = (out, res', e') \<and> root_term e' = root_term entry \<and>
     stream e' = stream entry \<and> (state e' = state entry \<or> state e' = DONE)"
  by (cases "(x, res, entry)" rule: fill_response_catch.cases)
     (auto simp add: terminate_internal_def Let_def)

lemma serve_phase:
  assumes "state e = STREAM"
  shows "\<exists>out res' e'.
     (case and_then (serve env res e) (attach_profile r env) of
        (Inr u, res, entry) \<Rightarrow> (Inr u, res, entry)
      | (Inl x, res, entry) \<Rightarrow> fill_response_catch x res entry) = (out, res', e') \<and>
     root_term e' = root_term e \<and> (stream e \<noteq> None \<longrightarrow> stream e' \<noteq> None) \<and>
     (state e' = STREAM \<or> state e' = DONE)"
proof -
  obtain o3 r3 e3 where serve: "serve env res e = (o3, r3, e3)"
    by (metis prod_cases3)
  from serve_cases [of env res e] serve assms
  have e3: "root_term e3 = root_term e" "state e3 = STREAM \<or> state e3 = DONE"
    "stream e \<noteq> None \<longrightarrow> stream e3 \<noteq> None"
    by auto
  show ?thesis
  proof (cases o3)
    case (Inl x)
    obtain o5 r5 e5 where c2: "fill_response_catch x r3 e3 = (o5, r5, e5)"
      by (metis prod_cases3)
    from catch_cases [of x r3 e3] c2
    have "root_term e5 = root_term e3" "stream e5 = stream e3" "state e5 = state e3 \<or> state e5 = DONE"
      by auto
    with e3 serve Inl c2 show ?thesis
      by (auto simp add: and_then_def)
  next
    case (Inr u)
    with e3 serve show ?thesis
      by (auto simp add: and_then_def attach_profile_def)
  qed
qed

lemma fill_response_STREAM_cases:
  assumes "state entry = STREAM"
  shows "\<exists>out res' e'. fill_response r env res entry = (out, res', e') \<and>
     root_term e' = root_term entry \<and> (stream entry \<noteq> None \<longrightarrow> stream e' \<noteq> None) \<and>
     (state e' = STREAM \<or> state e' = DONE)"
proof -
  have "fill_response r env res entry =
     (case and_then (serve env res entry) (attach_profile r env) of
        (Inr u, res, entry) \<Rightarrow> (Inr u, res, entry)
      | (Inl x, res, entry) \<Rightarrow> fill_response_catch x res entry)"
    using assms by (simp add: fill_response_def fill_response_try_def and_then_def)
  with serve_phase [OF assms, of env res r] show ?thesis
    by simp
qed

lemma fill_response_START_cases:
  assumes "state entry = START"
  shows "\<exists>out res' e'. fill_response r env res entry = (out, res', e') \<and>
        ((fst (run env res entry) = Inr () \<and> root_term e' = None \<and>
           (state e' = DONE \<or> state e' = STREAM \<and> stream e' \<noteq> None))
        \<or> (fst (run env res entry) \<noteq> Inr () \<and> root_term e' = root_term entry \<and> state e' = DONE))"
proof -
  obtain o1 r1 e1 where run: "run env res entry = (o1, r1, e1)"
    by (metis prod_cases3)
  from run_cases [of env res entry] run
  consider (raised) "o1 \<noteq> Inr ()" "state e1 = DONE" "root_term e1 = root_term entry"
    | (atom) "o1 = Inr ()" "state e1 = DONE"
    | (seq) "o1 = Inr ()" "state e1 = STREAM" "stream e1 \<noteq> None"
    by auto
  then show ?thesis
  proof cases
    case raised
    then obtain x where x: "o1 = Inl x"
      by (cases o1) auto
    obtain o4 r4 e4 where c1: "fill_response_catch x r1 e1 = (o4, r4, e4)"
      by (metis prod_cases3)
    from catch_cases [of x r1 e1] c1 raised
    have "root_term e4 = root_term entry" "state e4 = DONE"
      by auto
    with assms run x c1 show ?thesis
      by (simp add: fill_response_def fill_response_try_def and_then_def)
  next
    case atom
    with assms run show ?thesis
      by (simp add: fill_response_def fill_response_try_def and_then_def attach_profile_def)
  next
    case seq
    let ?e = "e1\<lparr>root_term := None\<rparr>"
    have st: "state ?e = STREAM"
      using seq by simp
    have "fill_response r env res entry =
       (case and_then (serve env r1 ?e) (attach_profile r env) of
          (Inr u, res, entry) \<Rightarrow> (Inr u, res, entry)
        | (Inl x, res, entry) \<Rightarrow> fill_response_catch x res entry)"
      using assms run seq by (simp add: fill_response_def fill_response_try_def and_then_def)
    with serve_phase [OF st, of env r1 r] run seq show ?thesis
      by auto
  qed
qed


lemma fill_response_inv: "entry_inv entry \<Longrightarrow> entry_inv (snd (snd (fill_response r env res entry)))"
proof (cases "state entry")
  case START
  with fill_response_START_cases [of entry r env res] show ?thesis
    by (auto simp add: entry_inv_def)
next
  case STREAM
  assume "entry_inv entry"
  with STREAM fill_response_STREAM_cases [of entry r env res] show ?thesis
    by (auto simp add: entry_inv_def)
next
  case DONE
  assume "entry_inv entry"
  with DONE show ?thesis by (simp add: fill_response_def)
next
  case DELETING
  assume "entry_inv entry"
  with DELETING show ?thesis by (simp add: fill_response_def)
qed

lemma reachable_inv: "reachable entry \<Longrightarrow> entry_inv entry"
proof (induction rule: reachable.induct)
  case (created query_params reg compiled)
  then show ?case by (simp add: entry_inv_def entry_ctor_def)
next
  case (filled entry r env res)
  from filled.IH show ?case by (rule fill_response_inv)
next
  case (interfered entry a)
  then show ?case by (cases a) (auto simp add: entry_inv_def terminate_internal_def Let_def)
next
  case (deleting entry)
  then show ?case by (simp add: entry_inv_def)
qed

subsection \<open>Exceptions that leave the try block\<close>

lemma raise_cases: "raise out = Inl x \<Longrightarrow> \<exists>e. x = thrown e"
  by (auto simp add: raise_def split: sum.splits)

lemma suspend_cases: "suspend cl entry = (Inl x, e') \<Longrightarrow> \<exists>e. x = thrown e"
  by (auto simp add: suspend_def dest: raise_cases)

lemma run_raises: "fst (run env res entry) = Inl x \<Longrightarrow> no_bt_exc x"
  by (auto simp add: run_def Let_def rfail_toplevel_def no_bt_exc_def
      split: option.splits sum.splits prod.splits if_splits
      dest!: suspend_cases raise_cases)

lemma serve_raises: "fst (serve env res entry) = Inl x \<Longrightarrow> no_bt_exc x"
  by (auto simp add: serve_def Let_def no_bt_exc_def
      split: option.splits sum.splits prod.splits if_splits feed_type_t.splits
      dest!: suspend_cases)

lemma and_then_raises:
  assumes "fst (and_then m f) = Inl x"
    and "\<And>y. fst m = Inl y \<Longrightarrow> P y"
    and "\<And>s y. fst (f s) = Inl y \<Longrightarrow> P y"
  shows "P x"
  using assms by (auto simp add: and_then_def split: prod.splits sum.splits)

lemma fill_response_try_raises: "fst (fill_response_try r env res entry) = Inl x \<Longrightarrow> no_bt_exc x"
  unfolding fill_response_try_def
  apply (erule and_then_raises)
   apply (erule and_then_raises)
    apply (simp split: if_splits)
    apply (erule and_then_raises)
     apply (erule run_raises)
    apply (simp split: prod.splits)
   apply (simp split: prod.splits if_splits)
   apply (erule serve_raises)
  apply (simp add: attach_profile_def split: prod.splits)
  done

lemma catch_not_CLIENT_ERROR:
  "no_bt_exc x \<Longrightarrow> \<not> raises_CLIENT_ERROR (fst (fill_response_catch x res entry))"
  by (cases "(x, res, entry)" rule: fill_response_catch.cases)
     (auto simp add: raises_CLIENT_ERROR_def no_bt_exc_def Let_def)

subsection \<open>Client errors, operation by operation\<close>

lemma fill_response_CLIENT_ERROR:
  "raises_CLIENT_ERROR (fst (fill_response r env res entry)) \<longleftrightarrow>
     state entry \<noteq> START \<and> state entry \<noteq> STREAM"
proof (cases "state entry \<noteq> START \<and> state entry \<noteq> STREAM")
  case True
  then show ?thesis
    by (simp add: fill_response_def raises_CLIENT_ERROR_def)
next
  case False
  obtain out res' e' where t: "fill_response_try r env res entry = (out, res', e')"
    by (metis prod_cases3)
  show ?thesis
  proof (cases out)
    case (Inl x)
    with t fill_response_try_raises [of r env res entry x] have "no_bt_exc x"
      by simp
    then have "\<not> raises_CLIENT_ERROR (fst (fill_response_catch x res' e'))"
      by (rule catch_not_CLIENT_ERROR)
    with False t Inl show ?thesis
      by (auto simp add: fill_response_def)
  next
    case (Inr u)
    with False t show ?thesis
      by (auto simp add: fill_response_def raises_CLIENT_ERROR_def)
  qed
qed

lemma fill_response_CLIENT_ERROR_msg:
  "raises_CLIENT_ERROR (fst (fill_response r env res entry)) \<Longrightarrow>
     fst (fill_response r env res entry) =
       Inl (bt_exc_t CLIENT_ERROR (''ERROR: duplicate token '' @ PRIi64 (ref_token r)) EMPTY_BACKTRACE)"
  by (simp add: fill_response_CLIENT_ERROR) (simp add: fill_response_def duplicate_token_msg_def)

lemma create_CLIENT_ERROR:
  assumes "cache_id c = query_cache p"
  shows "raises_CLIENT_ERROR (fst (create p i compile c)) \<longleftrightarrow> token p \<in> dom (queries c)"
proof (cases "queries c (token p)")
  case None
  obtain reg out where cmp: "compile (root_term_json p) (global_optargs_json p) = (reg, out)"
    by (cases "compile (root_term_json p) (global_optargs_json p)")
  show ?thesis
  proof (cases out)
    case (Inl x)
    with assms None cmp show ?thesis
      by (cases x)
         (auto simp add: create_def cache_unfold raises_CLIENT_ERROR_def)
  next
    case (Inr compiled)
    with assms None cmp show ?thesis
      by (auto simp add: create_def cache_unfold raises_CLIENT_ERROR_def ref_ctor_def entry_ctor_def)
  qed
next
  case (Some a)
  with assms show ?thesis
    by (auto simp add: create_def cache_unfold raises_CLIENT_ERROR_def)
qed

lemma create_CLIENT_ERROR_msg:
  assumes "cache_id c = query_cache p" and "raises_CLIENT_ERROR (fst (create p i compile c))"
  shows "fst (create p i compile c) =
       Inl (bt_exc_t CLIENT_ERROR (''ERROR: duplicate token '' @ PRIi64 (token p)) EMPTY_BACKTRACE)"
proof -
  from assms have "token p \<in> dom (queries c)"
    by (simp add: create_CLIENT_ERROR)
  with assms(1) show ?thesis
    by (auto simp add: create_def cache_unfold duplicate_token_msg_def)
qed

lemma get_CLIENT_ERROR:
  assumes "cache_id c = query_cache p"
  shows "raises_CLIENT_ERROR (fst (get p i c)) \<longleftrightarrow> token p \<notin> dom (queries c)"
  using assms
  by (auto simp add: get_def cache_unfold raises_CLIENT_ERROR_def ref_ctor_def
      split: option.splits)

lemma get_CLIENT_ERROR_msg:
  assumes "cache_id c = query_cache p" and "raises_CLIENT_ERROR (fst (get p i c))"
  shows "fst (get p i c) =
       Inl (bt_exc_t CLIENT_ERROR (''Token '' @ PRIi64 (token p) @ '' not in stream cache.'')
              EMPTY_BACKTRACE)"
proof -
  from assms have "queries c (token p) = None"
    by (auto simp add: get_CLIENT_ERROR)
  with assms(1) show ?thesis
    by (simp add: get_def cache_unfold not_in_stream_cache_msg_def)
qed

subsection \<open>The wait on the oldest outstanding ID\<close>

lemma run_until_satisfied_effects:
  "effects (snd (run_until_satisfied P evs c)) = effects c"
proof (induction evs arbitrary: c)
  case Nil
  then show ?case by simp
next
  case (Cons ev evs)
  then show ?case
    by (cases ev) (simp_all add: new_query_id_def release_query_id_def Let_def)
qed

lemma run_until_satisfied_outcomes:
  "fst (run_until_satisfied P evs c) = None \<or>
   fst (run_until_satisfied P evs c) = Some (Inr ()) \<or>
   fst (run_until_satisfied P evs c) = Some (Inl (thrown interrupted_exc_t))"
proof (induction evs arbitrary: c)
  case Nil
  then show ?case by simp
next
  case (Cons ev evs)
  then show ?case
    by (cases ev) simp_all
qed

lemma run_until_satisfied_returns:
  "run_until_satisfied P evs c = (Some (Inr ()), c') \<Longrightarrow> P (oldest_outstanding_query_id c')"
proof (induction evs arbitrary: c)
  case Nil
  then show ?case by (simp split: if_splits)
next
  case (Cons ev evs)
  then show ?case
    by (cases ev) (auto split: if_splits)
qed

lemma tracker_inv_new_query_id: "tracker_inv (snd (new_query_id c))"
  by (simp add: tracker_inv_def new_query_id_def Let_def)

lemma tracker_inv_release_query_id: "tracker_inv (release_query_id i c)"
  by (simp add: tracker_inv_def release_query_id_def Let_def)

lemma tracker_inv_ctor: "tracker_inv (query_cache_ctor i)"
  by (simp add: tracker_inv_def query_cache_ctor_def oldest_of_def)

lemma run_until_satisfied_tracker_inv:
  "tracker_inv c \<Longrightarrow> tracker_inv (snd (run_until_satisfied P evs c))"
proof (induction evs arbitrary: c)
  case Nil
  then show ?case by simp
next
  case (Cons ev evs)
  then show ?case
    by (cases ev) (simp_all add: tracker_inv_new_query_id tracker_inv_release_query_id)
qed

lemma fold_min_le: "fold min xs (x::64 word) \<le> x"
proof (induction xs arbitrary: x)
  case Nil
  then show ?case by simp
next
  case (Cons a xs)
  have "fold min xs (min a x) \<le> min a x" by (rule Cons.IH)
  also have "min a x \<le> x" by simp
  finally show ?case by simp
qed

lemma fold_min_le_elem: "y \<in> set xs \<Longrightarrow> fold min xs (x::64 word) \<le> y"
proof (induction xs arbitrary: x)
  case Nil
  then show ?case by simp
next
  case (Cons a xs)
  show ?case
  proof (cases "y = a")
    case True
    have "fold min xs (min a x) \<le> min a x" by (rule fold_min_le)
    with True show ?thesis by (simp add: min.commute)
  next
    case False
    with Cons show ?thesis by simp
  qed
qed

lemma oldest_of_le: "i \<in> set outs \<Longrightarrow> oldest_of nxt outs \<le> i"
  by (cases outs) (auto simp add: oldest_of_def fold_min_le fold_min_le_elem)

lemma noreply_wait_CLIENT_ERROR:
  assumes "cache_id c = query_cache p"
  shows "(\<exists>out. fst (noreply_wait p schedule c) = Some out \<and> raises_CLIENT_ERROR out) \<longleftrightarrow>
         token p \<in> dom (queries c)"
proof (cases "queries c (token p)")
  case None
  let ?c = "record_effect (Run_until_satisfied (id_value p)) (record_effect (Queries_find (token p)) c)"
  from None assms have "noreply_wait p schedule c =
      run_until_satisfied (\<lambda>v. v = id_value p) schedule ?c"
    by (simp add: noreply_wait_def queries_find_def)
  with run_until_satisfied_outcomes [of "\<lambda>v. v = id_value p" schedule ?c] None
  show ?thesis
    by (auto simp add: raises_CLIENT_ERROR_def)
next
  case (Some a)
  with assms show ?thesis
    by (auto simp add: noreply_wait_def queries_find_def raises_CLIENT_ERROR_def)
qed

lemma noreply_wait_CLIENT_ERROR_msg:
  assumes "cache_id c = query_cache p"
    and "fst (noreply_wait p schedule c) = Some out" and "raises_CLIENT_ERROR out"
  shows "out = Inl (bt_exc_t CLIENT_ERROR (''ERROR: duplicate token '' @ PRIi64 (token p))
                      EMPTY_BACKTRACE)"
proof -
  from assms noreply_wait_CLIENT_ERROR [of c p schedule] obtain a where "queries c (token p) = Some a"
    by auto
  with assms show ?thesis
    by (auto simp add: noreply_wait_def queries_find_def duplicate_token_msg_def)
qed

subsection \<open>The tracker and the history of effects\<close>

lemma maybe_release_query_id_released:
  "id_value p \<notin> set (outstanding_query_ids (maybe_release_query_id p c))"
  by (simp add: cache_unfold)

lemma create_after_release:
  assumes "cache_id c = query_cache p"
  shows "\<exists>rest. effects (snd (create p i compile c)) =
            effects c @ Maybe_release_query_id (id_value p) # rest \<and>
          same_tracker (maybe_release_query_id p c) (snd (create p i compile c))"
proof (cases "queries c (token p)")
  case None
  obtain reg out where cmp: "compile (root_term_json p) (global_optargs_json p) = (reg, out)"
    by (cases "compile (root_term_json p) (global_optargs_json p)")
  show ?thesis
  proof (cases out)
    case (Inl x)
    with assms None cmp show ?thesis
      by (cases x) (auto simp add: create_def cache_unfold same_tracker_def)
  next
    case (Inr compiled)
    with assms None cmp show ?thesis
      by (auto simp add: create_def cache_unfold same_tracker_def ref_ctor_def entry_ctor_def)
  qed
next
  case (Some a)
  with assms show ?thesis
    by (auto simp add: create_def cache_unfold same_tracker_def)
qed

lemma get_after_release:
  assumes "cache_id c = query_cache p"
  shows "\<exists>rest. effects (snd (get p i c)) =
            effects c @ Maybe_release_query_id (id_value p) # rest \<and>
          same_tracker (maybe_release_query_id p c) (snd (get p i c))"
  using assms
  by (cases "queries c (token p)") (auto simp add: get_def cache_unfold same_tracker_def)

lemma terminate_query_no_release:
  assumes "cache_id c = query_cache p"
  shows "effects (snd (terminate_query p c)) = effects c @ [Queries_find (token p)]"
    and "same_tracker c (snd (terminate_query p c))"
  using assms
  by (auto simp add: terminate_query_def cache_unfold same_tracker_def split: option.splits)

lemma noreply_wait_no_release:
  assumes "cache_id c = query_cache p"
  shows "effects (snd (noreply_wait p schedule c)) =
           effects c @ Queries_find (token p) #
             (if token p \<in> dom (queries c) then [] else [Run_until_satisfied (id_value p)])"
    and "same_tracker c (snd (noreply_wait p [] c))"
  using assms
  by (auto simp add: noreply_wait_def cache_unfold same_tracker_def run_until_satisfied_effects
      split: option.splits)

subsection \<open>The outcomes of create\<close>

lemma create_cases:
  "(\<exists>x. fst (create p i compile c) = Inl x \<and> queries (snd (create p i compile c)) = queries c \<and>
         (\<forall>what bt. x = bt_exc_t COMPILE_ERROR what bt \<longrightarrow> token p \<notin> dom (queries c)))
   \<or> (\<exists>r. fst (create p i compile c) = Inr r \<and>
        queries (snd (create p i compile c)) = (queries c)(token p \<mapsto> Some (ref_entry r)) \<and>
        token p \<notin> dom (queries c) \<and> \<not> i \<and>
        (\<exists>reg compiled. compile (root_term_json p) (global_optargs_json p) = (reg, Inr compiled)))"
proof (cases "cache_id c = query_cache p")
  case False
  then show ?thesis by (simp add: create_def)
next
  case ok: True
  show ?thesis
  proof (cases "queries c (token p)")
    case None
    obtain reg out where cmp: "compile (root_term_json p) (global_optargs_json p) = (reg, out)"
      by (cases "compile (root_term_json p) (global_optargs_json p)")
    show ?thesis
    proof (cases out)
      case (Inl x)
      with ok None cmp show ?thesis
        by (cases x) (auto simp add: create_def cache_unfold)
    next
      case (Inr compiled)
      with ok None cmp show ?thesis
        by (auto simp add: create_def cache_unfold ref_ctor_def entry_ctor_def)
    qed
  next
    case (Some a)
    with ok show ?thesis
      by (auto simp add: create_def cache_unfold)
  qed
qed

lemma create_cache_id: "cache_id (snd (create p i compile c)) = cache_id c"
proof (cases "cache_id c = query_cache p")
  case False
  then show ?thesis by (simp add: create_def)
next
  case ok: True
  show ?thesis
  proof (cases "queries c (token p)")
    case None
    obtain reg out where cmp: "compile (root_term_json p) (global_optargs_json p) = (reg, out)"
      by (cases "compile (root_term_json p) (global_optargs_json p)")
    show ?thesis
    proof (cases out)
      case (Inl x)
      with ok None cmp show ?thesis
        by (cases x) (auto simp add: create_def cache_unfold)
    next
      case (Inr compiled)
      with ok None cmp show ?thesis
        by (auto simp add: create_def cache_unfold ref_ctor_def entry_ctor_def)
    qed
  next
    case (Some a)
    with ok show ?thesis
      by (auto simp add: create_def cache_unfold)
  qed
qed

subsection \<open>The sample session, evaluated\<close>

lemma ex_cache_eq:
  "ex_cache = \<lparr>cache_id = 0, queries = Map.empty, next_query_id = 2,
      oldest_outstanding_query_id = 0, outstanding_query_ids = [0, 1], heap = Map.empty,
      allocated = 0, spawned = [], effects = []\<rparr>"
  by (simp add: ex_cache_def new_query_id_def query_cache_ctor_def Let_def oldest_of_def)

lemma ex_create:
  "create ex_params False ex_compile ex_cache =
     (Inr ex_ref,
      \<lparr>cache_id = 0, queries = [3 \<mapsto> Some 0], next_query_id = 2,
       oldest_outstanding_query_id = 0, outstanding_query_ids = [0], heap = [0 \<mapsto> ex_entry],
       allocated = 1, spawned = [],
       effects = [Maybe_release_query_id 1, Queries_find 3, Queries_insert 3 0]\<rparr>)"
  by (simp add: ex_cache_eq create_def cache_unfold ex_params_def ex_compile_def ref_ctor_def
      ex_ref_def ex_entry_def entry_ctor_def oldest_of_def)

lemma ex_cache_created_eq:
  "ex_cache_created =
      \<lparr>cache_id = 0, queries = [3 \<mapsto> Some 0], next_query_id = 2,
       oldest_outstanding_query_id = 0, outstanding_query_ids = [0], heap = [0 \<mapsto> ex_entry],
       allocated = 1, spawned = [],
       effects = [Maybe_release_query_id 1, Queries_find 3, Queries_insert 3 0]\<rparr>"
  by (simp add: ex_cache_created_def ex_create)



section \<open>The first evaluation and the batches\<close>

text \<open>
  Claim C1. On an entry in state \<open>START\<close> (with its root term), \<^verbatim>\<open>fill_response\<close> sets the
  state to \<open>DONE\<close> before it evaluates the root term: an evaluation that raises leaves
  \<^verbatim>\<open>run\<close> with the state \<open>DONE\<close>. When the evaluation returns a value, then
  \<^item> a value convertible to a datum, promiscuous grouped data, and a sequence that
    materialises as an array each give a \<open>SUCCESS_ATOM\<close> response carrying the datum, and
    the state stays \<open>DONE\<close>;
  \<^item> a sequence that does not materialise is stored in \<open>stream\<close>, with \<open>has_sent_batch\<close>
    false and the state \<open>STREAM\<close>, and the same call goes on with \<^verbatim>\<open>serve\<close> on that entry
    (whose root term has been cleared);
  \<^item> any other value makes the call raise a runtime error whose message names the type.
\<close>

theorem fill_response_first_evaluation:
  assumes "state entry = START" and "root_term entry = Some t"
  shows
    "(eval env t = (acts, Inl x) \<longrightarrow>
        (\<exists>e'. run env res entry = (Inl (thrown x), res, e') \<and> state e' = DONE))
   \<and> (eval env t = (acts, Inr val) \<longrightarrow>
        (is_convertible_DATUM val \<and> as_datum val = Inr d \<longrightarrow>
           answers_atom (fill_response r env res entry) d)
      \<and> (\<not> is_convertible_DATUM val \<and>
         maybe_as_promiscuous_grouped_data env val = (acts_g, Inr (Some gd)) \<and>
         to_datum_for_client_serialization env gd = Inr d \<longrightarrow>
           answers_atom (fill_response r env res entry) d)
      \<and> (\<not> is_convertible_DATUM val \<and>
         maybe_as_promiscuous_grouped_data env val = (acts_g, Inr None) \<and>
         is_convertible_SEQUENCE val \<and> as_seq env val = (acts_s, Inr seq) \<longrightarrow>
           (as_array env seq = (acts_a, Inr (Some d)) \<longrightarrow>
              answers_atom (fill_response r env res entry) d)
         \<and> (as_array env seq = (acts_a, Inr None) \<longrightarrow>
              (\<exists>e'. run env res entry = (Inr (), res, e') \<and> stream e' = Some seq \<and>
                 \<not> has_sent_batch e' \<and> state e' = STREAM \<and>
                 fill_response_try r env res entry =
                   and_then (serve env res (e'\<lparr>root_term := None\<rparr>)) (attach_profile r env))))
      \<and> (\<not> is_convertible_DATUM val \<and>
         maybe_as_promiscuous_grouped_data env val = (acts_g, Inr None) \<and>
         \<not> is_convertible_SEQUENCE val \<longrightarrow>
           (\<exists>e'. fill_response r env res entry =
              (Inl (bt_exc_t RUNTIME_ERROR
                     (''Query result must be of type DATUM, GROUPED_DATA, or STREAM (got ''
                      @ type_name val @ '').'')
                     (datum_backtrace (bt_reg entry) 0)), res, e') \<and> state e' = DONE)))"
proof (intro conjI impI)
  assume "eval env t = (acts, Inl x)"
  with assms(2) run_eval_raises [of entry t env acts x res]
  show "\<exists>e'. run env res entry = (Inl (thrown x), res, e') \<and> state e' = DONE"
    by auto
next
  assume "eval env t = (acts, Inr val)" and "is_convertible_DATUM val \<and> as_datum val = Inr d"
  with assms show "answers_atom (fill_response r env res entry) d"
    by (auto intro: fill_response_datum)
next
  assume "eval env t = (acts, Inr val)"
    and "\<not> is_convertible_DATUM val \<and>
         maybe_as_promiscuous_grouped_data env val = (acts_g, Inr (Some gd)) \<and>
         to_datum_for_client_serialization env gd = Inr d"
  with assms show "answers_atom (fill_response r env res entry) d"
    by (auto intro: fill_response_grouped)
next
  assume "eval env t = (acts, Inr val)"
    and "\<not> is_convertible_DATUM val \<and>
         maybe_as_promiscuous_grouped_data env val = (acts_g, Inr None) \<and>
         is_convertible_SEQUENCE val \<and> as_seq env val = (acts_s, Inr seq)"
    and "as_array env seq = (acts_a, Inr (Some d))"
  with assms show "answers_atom (fill_response r env res entry) d"
    by (auto intro: fill_response_array)
next
  assume "eval env t = (acts, Inr val)"
    and "\<not> is_convertible_DATUM val \<and>
         maybe_as_promiscuous_grouped_data env val = (acts_g, Inr None) \<and>
         is_convertible_SEQUENCE val \<and> as_seq env val = (acts_s, Inr seq)"
    and "as_array env seq = (acts_a, Inr None)"
  with assms fill_response_stream [of entry t env acts val acts_g acts_s seq acts_a res r]
  show "\<exists>e'. run env res entry = (Inr (), res, e') \<and> stream e' = Some seq \<and>
          \<not> has_sent_batch e' \<and> state e' = STREAM \<and>
          fill_response_try r env res entry =
            and_then (serve env res (e'\<lparr>root_term := None\<rparr>)) (attach_profile r env)"
    by blast
next
  assume "eval env t = (acts, Inr val)"
    and "\<not> is_convertible_DATUM val \<and>
         maybe_as_promiscuous_grouped_data env val = (acts_g, Inr None) \<and>
         \<not> is_convertible_SEQUENCE val"
  with assms fill_response_other [of entry t env acts val acts_g r res]
  show "\<exists>e'. fill_response r env res entry =
          (Inl (bt_exc_t RUNTIME_ERROR
                 (''Query result must be of type DATUM, GROUPED_DATA, or STREAM (got ''
                  @ type_name val @ '').'')
                 (datum_backtrace (bt_reg entry) 0)), res, e') \<and> state e' = DONE"
    by blast
qed

text \<open>In the sample session: the root term that gives 2 is answered with the atom 2, the
  long range becomes a stream, and a function is refused.\<close>

theorem fill_response_first_evaluation_witness:
  "state ex_entry = START \<and> root_term ex_entry = Some ''range(0, 100000)''
   \<and> answers_atom (fill_response ex_ref ex_env_atom empty_response ex_entry) (R_NUM 2)
   \<and> (\<exists>e'. run ex_env empty_response ex_entry = (Inr (), empty_response, e') \<and>
         stream e' = Some ex_stream \<and> \<not> has_sent_batch e' \<and> state e' = STREAM \<and>
         fill_response_try ex_ref ex_env empty_response ex_entry =
           and_then (serve ex_env empty_response (e'\<lparr>root_term := None\<rparr>))
             (attach_profile ex_ref ex_env))
   \<and> (\<exists>e'. fill_response ex_ref ex_env_function empty_response ex_entry =
         (Inl (bt_exc_t RUNTIME_ERROR
                ''Query result must be of type DATUM, GROUPED_DATA, or STREAM (got FUNCTION).''
                (R_ARRAY [R_NUM 0])), empty_response, e') \<and> state e' = DONE)"
proof -
  have start: "state ex_entry = START" and root: "root_term ex_entry = Some ''range(0, 100000)''"
    by (simp_all add: ex_defs)
  have atom: "eval ex_env_atom ''range(0, 100000)'' = ([], Inr ex_atom)"
    and conv: "is_convertible_DATUM ex_atom" "as_datum ex_atom = Inr (R_NUM 2)"
    by (simp_all add: ex_defs)
  have seq: "eval ex_env ''range(0, 100000)'' = ([], Inr ex_val)"
    and sequence: "\<not> is_convertible_DATUM ex_val"
      "maybe_as_promiscuous_grouped_data ex_env ex_val = ([], Inr None)"
      "is_convertible_SEQUENCE ex_val" "as_seq ex_env ex_val = ([], Inr ex_stream)"
      "as_array ex_env ex_stream = ([], Inr None)"
    by (simp_all add: ex_defs)
  have 1: "answers_atom (fill_response ex_ref ex_env_atom empty_response ex_entry) (R_NUM 2)"
    using fill_response_first_evaluation [OF start root, where env = ex_env_atom
        and acts = "[]" and val = ex_atom and d = "R_NUM 2" and r = ex_ref
        and res = empty_response] atom conv
    by simp
  have 2: "\<exists>e'. run ex_env empty_response ex_entry = (Inr (), empty_response, e') \<and>
         stream e' = Some ex_stream \<and> \<not> has_sent_batch e' \<and> state e' = STREAM \<and>
         fill_response_try ex_ref ex_env empty_response ex_entry =
           and_then (serve ex_env empty_response (e'\<lparr>root_term := None\<rparr>))
             (attach_profile ex_ref ex_env)"
    using fill_response_first_evaluation [OF start root, where env = ex_env and acts = "[]"
        and val = ex_val and acts_g = "[]" and acts_s = "[]" and seq = ex_stream
        and acts_a = "[]" and r = ex_ref and res = empty_response] seq sequence
    by simp
  have func: "eval ex_env_function ''range(0, 100000)'' = ([], Inr ex_function)"
    and other: "\<not> is_convertible_DATUM ex_function"
      "maybe_as_promiscuous_grouped_data ex_env_function ex_function = ([], Inr None)"
      "\<not> is_convertible_SEQUENCE ex_function"
    and name: "type_name ex_function = ''FUNCTION''"
      "datum_backtrace (bt_reg ex_entry) 0 = R_ARRAY [R_NUM 0]"
    by (simp_all add: ex_defs datum_backtrace_def)
  have "\<exists>e'. fill_response ex_ref ex_env_function empty_response ex_entry =
         (Inl (bt_exc_t RUNTIME_ERROR
                (''Query result must be of type DATUM, GROUPED_DATA, or STREAM (got ''
                 @ type_name ex_function @ '').'')
                (datum_backtrace (bt_reg ex_entry) 0)), empty_response, e') \<and> state e' = DONE"
    using fill_response_first_evaluation [OF start root, where env = ex_env_function
        and acts = "[]" and val = ex_function and acts_g = "[]" and r = ex_ref
        and res = empty_response] func other
    by simp
  with name
  have 3: "\<exists>e'. fill_response ex_ref ex_env_function empty_response ex_entry =
         (Inl (bt_exc_t RUNTIME_ERROR
                ''Query result must be of type DATUM, GROUPED_DATA, or STREAM (got FUNCTION).''
                (R_ARRAY [R_NUM 0])), empty_response, e') \<and> state e' = DONE"
    by simp
  from start root 1 2 3 show ?thesis
    by (intro conjI)
qed




section \<open>Interruption\<close>

text \<open>
  Claim C5. When the \<^verbatim>\<open>try\<close> block of \<^verbatim>\<open>fill_response\<close> ends with the evaluator's
  \<^verbatim>\<open>interrupted_exc_t\<close>: if the persistent interruptor of the entry is pulsed and the state
  is \<open>DONE\<close>, the response is cleared (whatever it held, it has no data, no notes and no
  profile any more) and typed \<open>SUCCESS_SEQUENCE\<close>, and the call returns without raising;
  if the persistent interruptor is not pulsed, \<^verbatim>\<open>terminate_internal\<close> is applied to the
  entry and the same exception leaves the call.
\<close>

theorem fill_response_interrupted:
  assumes "state entry = START \<or> state entry = STREAM"
    and "fill_response_try r env res entry = (Inl (thrown interrupted_exc_t), res', entry')"
  shows "(persistent_interruptor entry' \<and> state entry' = DONE \<longrightarrow>
            fill_response r env res entry =
              (Inr (), \<lparr>res_type = Some SUCCESS_SEQUENCE, res_data = [], res_notes = [],
                        res_profile = None\<rparr>, entry'))
       \<and> (\<not> persistent_interruptor entry' \<longrightarrow>
            fill_response r env res entry =
              (Inl (thrown interrupted_exc_t), res', terminate_internal entry'))"
  using assms by (auto simp add: fill_response_def res_unfold)

text \<open>In the sample session, with a response object that still holds the previous
  answer: a STOP while the batch is produced, and the external interruptor firing while
  the batch is produced.\<close>

theorem fill_response_interrupted_witness:
  "fill_response ex_ref ex_env_stop stale_response ex_streaming =
     (Inr (), \<lparr>res_type = Some SUCCESS_SEQUENCE, res_data = [], res_notes = [],
               res_profile = None\<rparr>,
      ex_streaming\<lparr>state := DONE, persistent_interruptor := True\<rparr>)
   \<and> res_data stale_response = [R_NUM 0, R_NUM 1] \<and> res_notes stale_response = [SEQUENCE_FEED]
   \<and> res_profile stale_response = Some R_NULL
   \<and> fill_response ex_ref ex_env_timeout stale_response ex_streaming =
     (Inl (thrown interrupted_exc_t), stale_response,
      ex_streaming\<lparr>state := DONE, persistent_interruptor := True\<rparr>)"
proof -
  have st: "state ex_streaming = START \<or> state ex_streaming = STREAM"
    by (simp add: ex_defs)
  have stop: "fill_response_try ex_ref ex_env_stop stale_response ex_streaming =
      (Inl (thrown interrupted_exc_t), stale_response,
       ex_streaming\<lparr>state := DONE, persistent_interruptor := True\<rparr>)"
    by (simp add: fill_response_try_def and_then_def serve_def suspend_def raise_def
        terminate_internal_def Let_def ex_defs)
  have timeout: "fill_response_try ex_ref ex_env_timeout stale_response ex_streaming =
      (Inl (thrown interrupted_exc_t), stale_response, ex_streaming)"
    by (simp add: fill_response_try_def and_then_def serve_def suspend_def raise_def ex_defs)
  have pulsed: "persistent_interruptor (ex_streaming\<lparr>state := DONE, persistent_interruptor := True\<rparr>)
      \<and> state (ex_streaming\<lparr>state := DONE, persistent_interruptor := True\<rparr>) = DONE"
    by simp
  have quiet: "\<not> persistent_interruptor ex_streaming"
    by (simp add: ex_defs)
  have terminated: "terminate_internal ex_streaming =
      ex_streaming\<lparr>state := DONE, persistent_interruptor := True\<rparr>"
    by (simp add: ex_defs terminate_internal_def Let_def)
  have held: "res_data stale_response = [R_NUM 0, R_NUM 1]"
    "res_notes stale_response = [SEQUENCE_FEED]" "res_profile stale_response = Some R_NULL"
    by (simp_all add: stale_response_def)
  from fill_response_interrupted [OF st stop] pulsed
  have 1: "fill_response ex_ref ex_env_stop stale_response ex_streaming =
      (Inr (), \<lparr>res_type = Some SUCCESS_SEQUENCE, res_data = [], res_notes = [],
                res_profile = None\<rparr>,
       ex_streaming\<lparr>state := DONE, persistent_interruptor := True\<rparr>)"
    by blast
  from fill_response_interrupted [OF st timeout] quiet
  have 2: "fill_response ex_ref ex_env_timeout stale_response ex_streaming =
      (Inl (thrown interrupted_exc_t), stale_response, terminate_internal ex_streaming)"
    by blast
  from 1 2 terminated held show ?thesis
    by simp
qed

text \<open>
  Claim C4, as the code has it. When the evaluation inside \<^verbatim>\<open>fill_response\<close> is
  interrupted and, as the exception is caught, the persistent interruptor of the entry
  is pulsed and the state is not \<open>DONE\<close>, \<^verbatim>\<open>fill_response\<close> raises the runtime error "Query
  terminated by the `rethinkdb.jobs` table." with an empty backtrace (first part below).
  \<^verbatim>\<open>terminate_internal\<close> marks a running or streaming entry \<open>DONE\<close> before it pulses the
  persistent interruptor, so a call of it does not by itself end in that error:

  \<^item> When the request for a batch is interrupted on an entry in state \<open>STREAM\<close> (second
    part): if \<^verbatim>\<open>terminate_internal\<close> was called on the entry during the request,
    \<^verbatim>\<open>fill_response\<close> empties the response, types it \<open>SUCCESS_SEQUENCE\<close> and raises nothing;
    if not, and the persistent interruptor is pulsed (directly during the request, or
    before it), \<^verbatim>\<open>fill_response\<close> raises the error; otherwise the external interruptor
    has fired, and the exception leaves the call.
  \<^item> When the evaluation of the root term of an entry in state \<open>START\<close> is itself
    interrupted (third part), the state is the \<open>DONE\<close> that \<^verbatim>\<open>run\<close> has set: any pulse of
    the persistent interruptor ends in the emptied \<open>SUCCESS_SEQUENCE\<close> response.
  \<^item> When the evaluation of the root term of an entry in state \<open>START\<close> returns a sequence
    that is not an array, \<^verbatim>\<open>run\<close> overwrites \<open>DONE\<close> with \<open>STREAM\<close>, also after a
    \<^verbatim>\<open>terminate_internal\<close> during the evaluation, and the request for the first batch is
    as in the first item (fourth part): a \<^verbatim>\<open>terminate_internal\<close> while the root term was
    evaluated ends in the error.
\<close>

theorem fill_response_killed:
  "((state entry = START \<or> state entry = STREAM) \<and>
    fill_response_try r env res entry = (Inl (thrown interrupted_exc_t), res', entry') \<and>
    persistent_interruptor entry' \<and> state entry' \<noteq> DONE
    \<longrightarrow> fill_response r env res entry =
     (Inl (bt_exc_t RUNTIME_ERROR ''Query terminated by the `rethinkdb.jobs` table.''
             EMPTY_BACKTRACE), res', entry'))
  \<and> (state entry = STREAM \<and> stream entry = Some s \<and>
    next_batch env s (if has_sent_batch entry then NORMAL else NORMAL_FIRST) =
      (acts, Inl interrupted_exc_t)
    \<longrightarrow> fill_response r env res entry =
     (if Terminate_internal \<in> set acts
      then (Inr (), \<lparr>res_type = Some SUCCESS_SEQUENCE, res_data = [], res_notes = [],
                      res_profile = None\<rparr>,
            entry\<lparr>state := DONE, persistent_interruptor := True\<rparr>)
      else if persistent_interruptor entry \<or> acts \<noteq> []
      then (Inl (bt_exc_t RUNTIME_ERROR ''Query terminated by the `rethinkdb.jobs` table.''
                   EMPTY_BACKTRACE), res, entry\<lparr>persistent_interruptor := True\<rparr>)
      else (Inl (thrown interrupted_exc_t), res,
            entry\<lparr>state := DONE, persistent_interruptor := True\<rparr>)))
  \<and> (state entry = START \<and> root_term entry = Some t \<and> eval env t = (acts, Inl interrupted_exc_t)
    \<longrightarrow> fill_response r env res entry =
     (if persistent_interruptor entry \<or> acts \<noteq> []
      then (Inr (), \<lparr>res_type = Some SUCCESS_SEQUENCE, res_data = [], res_notes = [],
                      res_profile = None\<rparr>,
            entry\<lparr>state := DONE, persistent_interruptor := True\<rparr>)
      else (Inl (thrown interrupted_exc_t), res,
            entry\<lparr>state := DONE, persistent_interruptor := True\<rparr>)))
  \<and> (state entry = START \<and> root_term entry = Some t \<and> eval env t = (acts_e, Inr val) \<and>
    \<not> is_convertible_DATUM val \<and>
    maybe_as_promiscuous_grouped_data env val = (acts_g, Inr None) \<and>
    is_convertible_SEQUENCE val \<and> as_seq env val = (acts_s, Inr seq) \<and>
    as_array env seq = (acts_a, Inr None) \<and>
    next_batch env seq NORMAL_FIRST = (acts_n, Inl interrupted_exc_t)
    \<longrightarrow> fill_response r env res entry =
     (if Terminate_internal \<in> set acts_n
      then (Inr (), \<lparr>res_type = Some SUCCESS_SEQUENCE, res_data = [], res_notes = [],
                      res_profile = None\<rparr>,
            entry\<lparr>state := DONE, root_term := None, stream := Some seq,
                  has_sent_batch := False, persistent_interruptor := True\<rparr>)
      else if persistent_interruptor entry \<or> acts_e @ acts_g @ acts_s @ acts_a @ acts_n \<noteq> []
      then (Inl (bt_exc_t RUNTIME_ERROR ''Query terminated by the `rethinkdb.jobs` table.''
                   EMPTY_BACKTRACE), res,
            entry\<lparr>state := STREAM, root_term := None, stream := Some seq,
                  has_sent_batch := False, persistent_interruptor := True\<rparr>)
      else (Inl (thrown interrupted_exc_t), res,
            entry\<lparr>state := DONE, root_term := None, stream := Some seq,
                  has_sent_batch := False, persistent_interruptor := True\<rparr>)))"
proof (intro conjI impI)
  assume "(state entry = START \<or> state entry = STREAM) \<and>
    fill_response_try r env res entry = (Inl (thrown interrupted_exc_t), res', entry') \<and>
    persistent_interruptor entry' \<and> state entry' \<noteq> DONE"
  then show "fill_response r env res entry =
     (Inl (bt_exc_t RUNTIME_ERROR ''Query terminated by the `rethinkdb.jobs` table.''
             EMPTY_BACKTRACE), res', entry')"
    by (auto simp add: fill_response_def jobs_table_msg_def)
next
  assume "state entry = STREAM \<and> stream entry = Some s \<and>
    next_batch env s (if has_sent_batch entry then NORMAL else NORMAL_FIRST) =
      (acts, Inl interrupted_exc_t)"
  then show "fill_response r env res entry =
     (if Terminate_internal \<in> set acts
      then (Inr (), \<lparr>res_type = Some SUCCESS_SEQUENCE, res_data = [], res_notes = [],
                      res_profile = None\<rparr>,
            entry\<lparr>state := DONE, persistent_interruptor := True\<rparr>)
      else if persistent_interruptor entry \<or> acts \<noteq> []
      then (Inl (bt_exc_t RUNTIME_ERROR ''Query terminated by the `rethinkdb.jobs` table.''
                   EMPTY_BACKTRACE), res, entry\<lparr>persistent_interruptor := True\<rparr>)
      else (Inl (thrown interrupted_exc_t), res,
            entry\<lparr>state := DONE, persistent_interruptor := True\<rparr>))"
    by (auto simp add: fill_unfold serve_def run_unfold res_unfold jobs_table_msg_def
        terminate_internal_def)
next
  assume "state entry = START \<and> root_term entry = Some t \<and>
    eval env t = (acts, Inl interrupted_exc_t)"
  then show "fill_response r env res entry =
     (if persistent_interruptor entry \<or> acts \<noteq> []
      then (Inr (), \<lparr>res_type = Some SUCCESS_SEQUENCE, res_data = [], res_notes = [],
                      res_profile = None\<rparr>,
            entry\<lparr>state := DONE, persistent_interruptor := True\<rparr>)
      else (Inl (thrown interrupted_exc_t), res,
            entry\<lparr>state := DONE, persistent_interruptor := True\<rparr>))"
    by (auto simp add: fill_unfold serve_def run_unfold res_unfold jobs_table_msg_def
        terminate_internal_def)
next
  assume "state entry = START \<and> root_term entry = Some t \<and> eval env t = (acts_e, Inr val) \<and>
    \<not> is_convertible_DATUM val \<and>
    maybe_as_promiscuous_grouped_data env val = (acts_g, Inr None) \<and>
    is_convertible_SEQUENCE val \<and> as_seq env val = (acts_s, Inr seq) \<and>
    as_array env seq = (acts_a, Inr None) \<and>
    next_batch env seq NORMAL_FIRST = (acts_n, Inl interrupted_exc_t)"
  then show "fill_response r env res entry =
     (if Terminate_internal \<in> set acts_n
      then (Inr (), \<lparr>res_type = Some SUCCESS_SEQUENCE, res_data = [], res_notes = [],
                      res_profile = None\<rparr>,
            entry\<lparr>state := DONE, root_term := None, stream := Some seq,
                  has_sent_batch := False, persistent_interruptor := True\<rparr>)
      else if persistent_interruptor entry \<or> acts_e @ acts_g @ acts_s @ acts_a @ acts_n \<noteq> []
      then (Inl (bt_exc_t RUNTIME_ERROR ''Query terminated by the `rethinkdb.jobs` table.''
                   EMPTY_BACKTRACE), res,
            entry\<lparr>state := STREAM, root_term := None, stream := Some seq,
                  has_sent_batch := False, persistent_interruptor := True\<rparr>)
      else (Inl (thrown interrupted_exc_t), res,
            entry\<lparr>state := DONE, root_term := None, stream := Some seq,
                  has_sent_batch := False, persistent_interruptor := True\<rparr>))"
    by (auto simp add: fill_unfold serve_def run_unfold res_unfold jobs_table_msg_def
        terminate_internal_def)
qed

text \<open>In the sample session: the persistent interruptor is pulsed directly while the
  batch is produced; and \<^verbatim>\<open>terminate_internal\<close> is called on the entry while the root term
  is evaluated, the evaluation returns its sequence, and the request for the first batch
  is interrupted.\<close>

theorem fill_response_killed_witness:
  "state ex_streaming = STREAM \<and> stream ex_streaming = Some ex_stream
   \<and> next_batch ex_env_kill ex_stream NORMAL_FIRST =
       ([Pulse_persistent_interruptor], Inl interrupted_exc_t)
   \<and> fill_response ex_ref ex_env_kill stale_response ex_streaming =
       (Inl (bt_exc_t RUNTIME_ERROR ''Query terminated by the `rethinkdb.jobs` table.''
               EMPTY_BACKTRACE), stale_response,
        ex_streaming\<lparr>persistent_interruptor := True\<rparr>)
   \<and> state ex_entry = START
   \<and> eval ex_env_stop_then_stream ''range(0, 100000)'' = ([Terminate_internal], Inr ex_val)
   \<and> next_batch ex_env_stop_then_stream ex_stream NORMAL_FIRST = ([], Inl interrupted_exc_t)
   \<and> fill_response ex_ref ex_env_stop_then_stream empty_response ex_entry =
       (Inl (bt_exc_t RUNTIME_ERROR ''Query terminated by the `rethinkdb.jobs` table.''
               EMPTY_BACKTRACE), empty_response,
        ex_streaming\<lparr>persistent_interruptor := True\<rparr>)"
proof -
  have pre: "state ex_streaming = STREAM" "stream ex_streaming = Some ex_stream"
    "\<not> has_sent_batch ex_streaming"
    "next_batch ex_env_kill ex_stream NORMAL_FIRST =
       ([Pulse_persistent_interruptor], Inl interrupted_exc_t)"
    by (simp_all add: ex_defs)
  from pre fill_response_killed [where entry = ex_streaming and s = ex_stream
      and env = ex_env_kill and acts = "[Pulse_persistent_interruptor]" and r = ex_ref
      and res = stale_response]
  have 1: "fill_response ex_ref ex_env_kill stale_response ex_streaming =
       (Inl (bt_exc_t RUNTIME_ERROR ''Query terminated by the `rethinkdb.jobs` table.''
               EMPTY_BACKTRACE), stale_response,
        ex_streaming\<lparr>persistent_interruptor := True\<rparr>)"
    by simp
  have start: "state ex_entry = START" "root_term ex_entry = Some ''range(0, 100000)''"
    "eval ex_env_stop_then_stream ''range(0, 100000)'' = ([Terminate_internal], Inr ex_val)"
    "\<not> is_convertible_DATUM ex_val"
    "maybe_as_promiscuous_grouped_data ex_env_stop_then_stream ex_val = ([], Inr None)"
    "is_convertible_SEQUENCE ex_val"
    "as_seq ex_env_stop_then_stream ex_val = ([], Inr ex_stream)"
    "as_array ex_env_stop_then_stream ex_stream = ([], Inr None)"
    "next_batch ex_env_stop_then_stream ex_stream NORMAL_FIRST = ([], Inl interrupted_exc_t)"
    by (simp_all add: ex_defs)
  have same: "ex_entry\<lparr>state := STREAM, root_term := None, stream := Some ex_stream,
      has_sent_batch := False, persistent_interruptor := True\<rparr> =
        ex_streaming\<lparr>persistent_interruptor := True\<rparr>"
    by (simp add: ex_defs)
  from start fill_response_killed [where entry = ex_entry and t = "''range(0, 100000)''"
      and env = ex_env_stop_then_stream and acts_e = "[Terminate_internal]" and val = ex_val
      and acts_g = "[]" and acts_s = "[]" and seq = ex_stream and acts_a = "[]"
      and acts_n = "[]" and r = ex_ref and res = empty_response]
  have "fill_response ex_ref ex_env_stop_then_stream empty_response ex_entry =
       (Inl (bt_exc_t RUNTIME_ERROR ''Query terminated by the `rethinkdb.jobs` table.''
               EMPTY_BACKTRACE), empty_response,
        ex_entry\<lparr>state := STREAM, root_term := None, stream := Some ex_stream,
                 has_sent_batch := False, persistent_interruptor := True\<rparr>)"
    by simp
  with same have 2: "fill_response ex_ref ex_env_stop_then_stream empty_response ex_entry =
       (Inl (bt_exc_t RUNTIME_ERROR ''Query terminated by the `rethinkdb.jobs` table.''
               EMPTY_BACKTRACE), empty_response,
        ex_streaming\<lparr>persistent_interruptor := True\<rparr>)"
    by simp
  from pre start 1 2 show ?thesis
    by simp
qed

text \<open>The claim as stated fails: \<^verbatim>\<open>terminate_internal\<close> is called on the entry while the
  batch is produced (and, second, while the root term is evaluated), the evaluation is
  interrupted, and \<^verbatim>\<open>fill_response\<close> returns an emptied \<open>SUCCESS_SEQUENCE\<close> response instead
  of raising.\<close>

theorem fill_response_killed_counterexample:
  "fill_response ex_ref ex_env_stop stale_response ex_streaming =
     (Inr (), \<lparr>res_type = Some SUCCESS_SEQUENCE, res_data = [], res_notes = [],
               res_profile = None\<rparr>,
      ex_streaming\<lparr>state := DONE, persistent_interruptor := True\<rparr>)
   \<and> fill_response ex_ref ex_env_stop_eval empty_response ex_entry =
     (Inr (), \<lparr>res_type = Some SUCCESS_SEQUENCE, res_data = [], res_notes = [],
               res_profile = None\<rparr>,
      ex_entry\<lparr>state := DONE, persistent_interruptor := True\<rparr>)"
  by (simp add: fill_unfold serve_def run_def suspend_def raise_def terminate_internal_def
      Let_def res_unfold ex_defs)

section \<open>The root term\<close>

text \<open>
  Claim C8, as the code has it. In every reachable entry in state \<open>STREAM\<close> the root term
  is null. After a \<^verbatim>\<open>fill_response\<close> on an entry in state \<open>START\<close> whose \<^verbatim>\<open>run\<close> returns
  without raising, the root term is null and the state is \<open>STREAM\<close> or \<open>DONE\<close>. When
  \<^verbatim>\<open>run\<close> raises, the assignment after it is skipped: the entry is left \<open>DONE\<close> with its
  root term as it was.
\<close>

theorem root_term_cleared:
  "(reachable entry \<longrightarrow> (state entry = STREAM \<longrightarrow> root_term entry = None)) \<and>
   (state entry = START \<and> fst (run env res entry) = Inr () \<longrightarrow>
      root_term (snd (snd (fill_response r env res entry))) = None \<and>
      (state (snd (snd (fill_response r env res entry))) = STREAM \<or>
       state (snd (snd (fill_response r env res entry))) = DONE)) \<and>
   (state entry = START \<and> fst (run env res entry) \<noteq> Inr () \<longrightarrow>
      root_term (snd (snd (fill_response r env res entry))) = root_term entry \<and>
      state (snd (snd (fill_response r env res entry))) = DONE)"
proof (intro conjI impI)
  assume "reachable entry" and "state entry = STREAM"
  then show "root_term entry = None"
    using reachable_inv [of entry] by (simp add: entry_inv_def)
next
  assume a: "state entry = START \<and> fst (run env res entry) = Inr ()"
  with fill_response_START_cases [of entry r env res]
  show "root_term (snd (snd (fill_response r env res entry))) = None"
    and "state (snd (snd (fill_response r env res entry))) = STREAM \<or>
       state (snd (snd (fill_response r env res entry))) = DONE"
    by auto
next
  assume a: "state entry = START \<and> fst (run env res entry) \<noteq> Inr ()"
  with fill_response_START_cases [of entry r env res]
  show "root_term (snd (snd (fill_response r env res entry))) = root_term entry"
    and "state (snd (snd (fill_response r env res entry))) = DONE"
    by auto
qed

text \<open>In the sample session: the entry after the first batch of the range is reachable,
  in state \<open>STREAM\<close>, and has no root term.\<close>

theorem root_term_cleared_witness:
  "reachable (snd (snd (fill_response ex_ref ex_env empty_response ex_entry)))
   \<and> state ex_entry = START \<and> fst (run ex_env empty_response ex_entry) = Inr ()
   \<and> state (snd (snd (fill_response ex_ref ex_env empty_response ex_entry))) = STREAM
   \<and> root_term (snd (snd (fill_response ex_ref ex_env empty_response ex_entry))) = None"
proof -
  have "reachable ex_entry"
    unfolding ex_entry_def by (rule reachable.created)
  then have 1: "reachable (snd (snd (fill_response ex_ref ex_env empty_response ex_entry)))"
    by (rule reachable.filled)
  have 2: "state ex_entry = START" and 3: "fst (run ex_env empty_response ex_entry) = Inr ()"
    by (simp_all add: run_unfold ex_defs)
  have 4: "state (snd (snd (fill_response ex_ref ex_env empty_response ex_entry))) = STREAM"
    by (simp add: fill_unfold serve_def run_unfold res_unfold ex_defs)
  from 1 4 root_term_cleared
    [where entry = "snd (snd (fill_response ex_ref ex_env empty_response ex_entry))"]
  have "root_term (snd (snd (fill_response ex_ref ex_env empty_response ex_entry))) = None"
    by blast
  with 1 2 3 4 show ?thesis
    by (intro conjI)
qed

text \<open>The claim as stated fails: the evaluation of the root term raises, and the call
  ends by exception with the entry \<open>DONE\<close> and its root term still there; a STOP during
  the evaluation ends the call normally, in the same state.\<close>

theorem root_term_cleared_counterexample:
  "fill_response ex_ref ex_env_fail empty_response ex_entry =
     (Inl (bt_exc_t RUNTIME_ERROR ''Cannot divide by zero.'' (R_ARRAY [R_NUM 4])),
      empty_response, ex_entry\<lparr>state := DONE, persistent_interruptor := True\<rparr>)
   \<and> state (ex_entry\<lparr>state := DONE, persistent_interruptor := True\<rparr>) = DONE
   \<and> root_term (ex_entry\<lparr>state := DONE, persistent_interruptor := True\<rparr>) =
       Some ''range(0, 100000)''
   \<and> fst (fill_response ex_ref ex_env_stop_eval empty_response ex_entry) = Inr ()
   \<and> state (snd (snd (fill_response ex_ref ex_env_stop_eval empty_response ex_entry))) = DONE
   \<and> root_term (snd (snd (fill_response ex_ref ex_env_stop_eval empty_response ex_entry))) =
       Some ''range(0, 100000)''"
  by (simp add: fill_unfold run_def suspend_def raise_def terminate_internal_def Let_def
      datum_backtrace_def res_unfold ex_defs)

section \<open>Tokens\<close>

text \<open>
  Claim C3. For a query-params object issued against the cache: \<^verbatim>\<open>create\<close> raises a
  \<open>CLIENT_ERROR\<close> exactly when the token is in the map, and it is then the duplicate-token
  error; \<^verbatim>\<open>get\<close> raises a \<open>CLIENT_ERROR\<close> exactly when the token is not in the map, and it
  is then the not-in-stream-cache error; \<^verbatim>\<open>fill_response\<close> raises a \<open>CLIENT_ERROR\<close> exactly
  when the state of the entry is neither \<open>START\<close> nor \<open>STREAM\<close>, and it is then the
  duplicate-token error; \<^verbatim>\<open>noreply_wait\<close> raises a \<open>CLIENT_ERROR\<close> exactly when the token
  is in the map, and it is then the duplicate-token error. Each of these errors carries
  the empty backtrace.
\<close>

theorem client_errors:
  assumes "cache_id c = query_cache p"
  shows "(raises_CLIENT_ERROR (fst (create p i compile c)) \<longleftrightarrow> token p \<in> dom (queries c))
    \<and> (raises_CLIENT_ERROR (fst (create p i compile c)) \<longrightarrow>
         fst (create p i compile c) =
           Inl (bt_exc_t CLIENT_ERROR (''ERROR: duplicate token '' @ PRIi64 (token p)) EMPTY_BACKTRACE))
    \<and> (raises_CLIENT_ERROR (fst (get p i c)) \<longleftrightarrow> token p \<notin> dom (queries c))
    \<and> (raises_CLIENT_ERROR (fst (get p i c)) \<longrightarrow>
         fst (get p i c) =
           Inl (bt_exc_t CLIENT_ERROR (''Token '' @ PRIi64 (token p) @ '' not in stream cache.'')
                  EMPTY_BACKTRACE))
    \<and> (raises_CLIENT_ERROR (fst (fill_response r env res entry)) \<longleftrightarrow>
         state entry \<noteq> START \<and> state entry \<noteq> STREAM)
    \<and> (raises_CLIENT_ERROR (fst (fill_response r env res entry)) \<longrightarrow>
         fst (fill_response r env res entry) =
           Inl (bt_exc_t CLIENT_ERROR (''ERROR: duplicate token '' @ PRIi64 (ref_token r))
                  EMPTY_BACKTRACE))
    \<and> ((\<exists>out. fst (noreply_wait p schedule c) = Some out \<and> raises_CLIENT_ERROR out) \<longleftrightarrow>
         token p \<in> dom (queries c))
    \<and> (\<forall>out. fst (noreply_wait p schedule c) = Some out \<and> raises_CLIENT_ERROR out \<longrightarrow>
         out = Inl (bt_exc_t CLIENT_ERROR (''ERROR: duplicate token '' @ PRIi64 (token p))
                      EMPTY_BACKTRACE))"
proof (intro conjI allI impI)
  show "raises_CLIENT_ERROR (fst (create p i compile c)) \<longleftrightarrow> token p \<in> dom (queries c)"
    using assms by (rule create_CLIENT_ERROR)
  show "raises_CLIENT_ERROR (fst (get p i c)) \<longleftrightarrow> token p \<notin> dom (queries c)"
    using assms by (rule get_CLIENT_ERROR)
  show "raises_CLIENT_ERROR (fst (fill_response r env res entry)) \<longleftrightarrow>
         state entry \<noteq> START \<and> state entry \<noteq> STREAM"
    by (rule fill_response_CLIENT_ERROR)
  show "(\<exists>out. fst (noreply_wait p schedule c) = Some out \<and> raises_CLIENT_ERROR out) \<longleftrightarrow>
         token p \<in> dom (queries c)"
    using assms by (rule noreply_wait_CLIENT_ERROR)
next
  assume "raises_CLIENT_ERROR (fst (create p i compile c))"
  with assms show "fst (create p i compile c) =
      Inl (bt_exc_t CLIENT_ERROR (''ERROR: duplicate token '' @ PRIi64 (token p)) EMPTY_BACKTRACE)"
    by (rule create_CLIENT_ERROR_msg)
next
  assume "raises_CLIENT_ERROR (fst (get p i c))"
  with assms show "fst (get p i c) =
      Inl (bt_exc_t CLIENT_ERROR (''Token '' @ PRIi64 (token p) @ '' not in stream cache.'')
             EMPTY_BACKTRACE)"
    by (rule get_CLIENT_ERROR_msg)
next
  assume "raises_CLIENT_ERROR (fst (fill_response r env res entry))"
  then show "fst (fill_response r env res entry) =
      Inl (bt_exc_t CLIENT_ERROR (''ERROR: duplicate token '' @ PRIi64 (ref_token r))
             EMPTY_BACKTRACE)"
    by (rule fill_response_CLIENT_ERROR_msg)
next
  fix out
  assume a: "fst (noreply_wait p schedule c) = Some out \<and> raises_CLIENT_ERROR out"
  from a have returned: "fst (noreply_wait p schedule c) = Some out"
    and raised: "raises_CLIENT_ERROR out"
    by simp_all
  from assms returned raised
  show "out = Inl (bt_exc_t CLIENT_ERROR (''ERROR: duplicate token '' @ PRIi64 (token p))
                      EMPTY_BACKTRACE)"
    by (rule noreply_wait_CLIENT_ERROR_msg)
qed

text \<open>In the sample session, once the START with token 3 has been created: a second
  START and a NOREPLY_WAIT with token 3 are duplicates, a CONTINUE finds the entry, and a
  \<^verbatim>\<open>fill_response\<close> on the entry once it is \<open>DONE\<close> is a duplicate too.\<close>

theorem client_errors_witness:
  "cache_id ex_cache_created = query_cache ex_params
   \<and> fst (create ex_params False ex_compile ex_cache_created) =
       Inl (bt_exc_t CLIENT_ERROR ''ERROR: duplicate token 3'' EMPTY_BACKTRACE)
   \<and> \<not> raises_CLIENT_ERROR (fst (get ex_params False ex_cache_created))
   \<and> fst (fill_response ex_ref ex_env empty_response (ex_entry\<lparr>state := DONE\<rparr>)) =
       Inl (bt_exc_t CLIENT_ERROR ''ERROR: duplicate token 3'' EMPTY_BACKTRACE)
   \<and> fst (noreply_wait ex_params [] ex_cache_created) =
       Some (Inl (bt_exc_t CLIENT_ERROR ''ERROR: duplicate token 3'' EMPTY_BACKTRACE))"
proof -
  have own: "cache_id ex_cache_created = query_cache ex_params"
    and present: "token ex_params \<in> dom (queries ex_cache_created)"
    and tok: "token ex_params = 3" "ref_token ex_ref = 3"
    and finished: "state (ex_entry\<lparr>state := DONE\<rparr>) \<noteq> START \<and> state (ex_entry\<lparr>state := DONE\<rparr>) \<noteq> STREAM"
    by (simp_all add: ex_cache_created_eq ex_params_def ex_ref_def)
  have three: "PRIi64 3 = ''3''"
    by (simp add: PRIi64_def show_nat.simps)
  have waited: "fst (noreply_wait ex_params [] ex_cache_created) =
      Some (Inl (bt_exc_t CLIENT_ERROR (duplicate_token_msg 3) EMPTY_BACKTRACE))"
    by (simp add: noreply_wait_def queries_find_def ex_cache_created_eq ex_params_def)
  note inst = client_errors [OF own, where i = False and compile = ex_compile and r = ex_ref
      and env = ex_env and res = empty_response and entry = "ex_entry\<lparr>state := DONE\<rparr>"
      and schedule = "[]"]
  from inst present have 1: "fst (create ex_params False ex_compile ex_cache_created) =
       Inl (bt_exc_t CLIENT_ERROR (''ERROR: duplicate token '' @ PRIi64 (token ex_params))
              EMPTY_BACKTRACE)"
    by blast
  from inst present have 2: "\<not> raises_CLIENT_ERROR (fst (get ex_params False ex_cache_created))"
    by blast
  from inst finished have 3: "fst (fill_response ex_ref ex_env empty_response (ex_entry\<lparr>state := DONE\<rparr>)) =
       Inl (bt_exc_t CLIENT_ERROR (''ERROR: duplicate token '' @ PRIi64 (ref_token ex_ref))
              EMPTY_BACKTRACE)"
    by blast
  from own 1 2 3 waited tok three show ?thesis
    by (simp add: duplicate_token_msg_def)
qed

text \<open>
  Claim C10. When \<^verbatim>\<open>create\<close> fails, whatever the failure, the map of tokens is as it
  was. When it returns a handle, the token was not in the map, the compilation has
  succeeded and the handle has been constructed (the interruptor had not fired), and
  the map has the token bound to the new entry. After a \<open>COMPILE_ERROR\<close> the token is not
  in the map, and a later \<^verbatim>\<open>create\<close> with the same token raises no duplicate-token error.
\<close>

theorem create_failure_leaves_map:
  "(\<forall>x. fst (create p i compile c) = Inl x \<longrightarrow> queries (snd (create p i compile c)) = queries c)
 \<and> (\<forall>r. fst (create p i compile c) = Inr r \<longrightarrow>
        queries (snd (create p i compile c)) = (queries c)(token p \<mapsto> Some (ref_entry r)) \<and>
        token p \<notin> dom (queries c) \<and> \<not> i \<and>
        (\<exists>reg compiled. compile (root_term_json p) (global_optargs_json p) = (reg, Inr compiled)))
 \<and> (\<forall>what bt. fst (create p i compile c) = Inl (bt_exc_t COMPILE_ERROR what bt) \<longrightarrow>
        token p \<notin> dom (queries (snd (create p i compile c))) \<and>
        (\<forall>p' i' compile'. token p' = token p \<and> query_cache p' = cache_id c \<longrightarrow>
           \<not> raises_CLIENT_ERROR (fst (create p' i' compile' (snd (create p i compile c))))))"
proof (intro conjI allI impI)
  fix x assume "fst (create p i compile c) = Inl x"
  with create_cases [of p i compile c] show "queries (snd (create p i compile c)) = queries c"
    by auto
next
  fix r assume r: "fst (create p i compile c) = Inr r"
  with create_cases [of p i compile c]
  show "queries (snd (create p i compile c)) = (queries c)(token p \<mapsto> Some (ref_entry r))"
    and "token p \<notin> dom (queries c)" and "\<not> i"
    and "\<exists>reg compiled. compile (root_term_json p) (global_optargs_json p) = (reg, Inr compiled)"
    by auto
next
  fix what bt assume e: "fst (create p i compile c) = Inl (bt_exc_t COMPILE_ERROR what bt)"
  with create_cases [of p i compile c]
  show absent: "token p \<notin> dom (queries (snd (create p i compile c)))"
    by auto
  fix p' :: query_params_t and i' :: bool and compile' :: compile_t
  assume p': "token p' = token p \<and> query_cache p' = cache_id c"
  then have "cache_id (snd (create p i compile c)) = query_cache p'"
    by (simp add: create_cache_id)
  then have "raises_CLIENT_ERROR (fst (create p' i' compile' (snd (create p i compile c)))) \<longleftrightarrow>
      token p' \<in> dom (queries (snd (create p i compile c)))"
    by (rule create_CLIENT_ERROR)
  with absent p' show "\<not> raises_CLIENT_ERROR (fst (create p' i' compile' (snd (create p i compile c))))"
    by simp
qed

text \<open>In the sample session, the START with token 3 does not compile: the map stays
  empty, and the same START with a term that compiles is then created.\<close>

theorem create_failure_leaves_map_witness:
  "fst (create ex_params False ex_compile_fail ex_cache) =
     Inl (bt_exc_t COMPILE_ERROR ''Expected 2 arguments but found 1.'' (R_ARRAY [R_NUM 0]))
   \<and> queries (snd (create ex_params False ex_compile_fail ex_cache)) = queries ex_cache
   \<and> token ex_params \<notin> dom (queries (snd (create ex_params False ex_compile_fail ex_cache)))
   \<and> \<not> raises_CLIENT_ERROR
        (fst (create ex_params False ex_compile (snd (create ex_params False ex_compile_fail ex_cache))))"
proof -
  have failed: "fst (create ex_params False ex_compile_fail ex_cache) =
     Inl (bt_exc_t COMPILE_ERROR ''Expected 2 arguments but found 1.'' (R_ARRAY [R_NUM 0]))"
    by (simp add: create_def cache_unfold ex_cache_eq ex_params_def ex_compile_fail_def
        ex_reg_def datum_backtrace_def)
  have own: "token ex_params = token ex_params \<and> query_cache ex_params = cache_id ex_cache"
    by (simp add: ex_cache_eq ex_params_def)
  note inst = create_failure_leaves_map [where p = ex_params and i = False
      and compile = ex_compile_fail and c = ex_cache]
  from inst failed
  have 1: "queries (snd (create ex_params False ex_compile_fail ex_cache)) = queries ex_cache"
    by blast
  from inst failed
  have 2: "token ex_params \<notin> dom (queries (snd (create ex_params False ex_compile_fail ex_cache)))"
    by blast
  from inst failed own
  have 3: "\<not> raises_CLIENT_ERROR
        (fst (create ex_params False ex_compile (snd (create ex_params False ex_compile_fail ex_cache))))"
    by blast
  from failed 1 2 3 show ?thesis
    by (intro conjI)
qed

section \<open>Query IDs\<close>

text \<open>
  Claim C7, as the code has it. \<^verbatim>\<open>create\<close> and \<^verbatim>\<open>get\<close> release the ID of the query-params
  object as their first action: the release is the first effect they add to the history,
  before the lookup of the token, and the ID is no longer outstanding when they end,
  whatever the outcome. \<^verbatim>\<open>terminate_query\<close> and \<^verbatim>\<open>noreply_wait\<close> do not release the
  ID: their first effect is the lookup of the token, \<^verbatim>\<open>terminate_query\<close> leaves the
  tracker as it was, and \<^verbatim>\<open>noreply_wait\<close> then waits (with nothing else happening, the
  tracker is as it was).
\<close>

theorem release_query_id_first:
  assumes "cache_id c = query_cache p"
  shows "(\<exists>rest. effects (snd (create p i compile c)) =
            effects c @ Maybe_release_query_id (id_value p) # rest)
    \<and> id_value p \<notin> set (outstanding_query_ids (snd (create p i compile c)))
    \<and> (\<exists>rest. effects (snd (get p i c)) =
            effects c @ Maybe_release_query_id (id_value p) # rest)
    \<and> id_value p \<notin> set (outstanding_query_ids (snd (get p i c)))
    \<and> effects (snd (terminate_query p c)) = effects c @ [Queries_find (token p)]
    \<and> same_tracker c (snd (terminate_query p c))
    \<and> effects (snd (noreply_wait p schedule c)) =
           effects c @ Queries_find (token p) #
             (if token p \<in> dom (queries c) then [] else [Run_until_satisfied (id_value p)])
    \<and> same_tracker c (snd (noreply_wait p [] c))"
proof -
  from create_after_release [OF assms, of i compile]
  have 1: "\<exists>rest. effects (snd (create p i compile c)) =
            effects c @ Maybe_release_query_id (id_value p) # rest"
    and 2: "id_value p \<notin> set (outstanding_query_ids (snd (create p i compile c)))"
    using maybe_release_query_id_released [of p c]
    by (auto simp add: same_tracker_def)
  from get_after_release [OF assms, of i]
  have 3: "\<exists>rest. effects (snd (get p i c)) =
            effects c @ Maybe_release_query_id (id_value p) # rest"
    and 4: "id_value p \<notin> set (outstanding_query_ids (snd (get p i c)))"
    using maybe_release_query_id_released [of p c]
    by (auto simp add: same_tracker_def)
  from 1 2 3 4 terminate_query_no_release [OF assms] noreply_wait_no_release [OF assms]
  show ?thesis
    by blast
qed

text \<open>In the sample session, for the START with token 3 and ID 1.\<close>

theorem release_query_id_first_witness:
  "cache_id ex_cache = query_cache ex_params
   \<and> effects (snd (create ex_params False ex_compile ex_cache)) =
       [Maybe_release_query_id 1, Queries_find 3, Queries_insert 3 0]
   \<and> id_value ex_params \<notin> set (outstanding_query_ids (snd (create ex_params False ex_compile ex_cache)))
   \<and> same_tracker ex_cache (snd (terminate_query ex_params ex_cache))"
proof -
  have own: "cache_id ex_cache = query_cache ex_params"
    by (simp add: ex_cache_eq ex_params_def)
  have log: "effects (snd (create ex_params False ex_compile ex_cache)) =
       [Maybe_release_query_id 1, Queries_find 3, Queries_insert 3 0]"
    by (simp add: ex_create)
  note inst = release_query_id_first [OF own, where i = False and compile = ex_compile
      and schedule = "[]"]
  from inst
  have 1: "id_value ex_params \<notin>
      set (outstanding_query_ids (snd (create ex_params False ex_compile ex_cache)))"
    by blast
  from inst have 2: "same_tracker ex_cache (snd (terminate_query ex_params ex_cache))"
    by blast
  from own log 1 2 show ?thesis
    by (intro conjI)
qed

text \<open>The claim as stated fails: in the sample session, a STOP and a NOREPLY_WAIT with
  ID 1 (the wait ends when ID 0 is released by its owner) leave ID 1 outstanding, and
  their histories hold no release.\<close>

theorem release_query_id_first_counterexample:
  "outstanding_query_ids ex_cache = [0, 1] \<and> id_value ex_params = 1
   \<and> fst (terminate_query ex_params ex_cache) = Inr ()
   \<and> effects (snd (terminate_query ex_params ex_cache)) = [Queries_find 3]
   \<and> outstanding_query_ids (snd (terminate_query ex_params ex_cache)) = [0, 1]
   \<and> fst (noreply_wait ex_params [Query_id_released 0] ex_cache) = Some (Inr ())
   \<and> effects (snd (noreply_wait ex_params [Query_id_released 0] ex_cache)) =
       [Queries_find 3, Run_until_satisfied 1]
   \<and> outstanding_query_ids (snd (noreply_wait ex_params [Query_id_released 0] ex_cache)) = [1]"
  by (simp add: terminate_query_def noreply_wait_def cache_unfold ex_cache_eq ex_params_def
      oldest_of_def)

text \<open>
  Claim C9. When \<^verbatim>\<open>noreply_wait\<close> returns normally, the token was not in the map and the
  oldest outstanding ID equals the ID of the caller; the tracker keeps the oldest
  outstanding ID at the minimum of the outstanding IDs, so no ID smaller than the
  caller's is outstanding any more. The wait does end when the condition holds: a caller
  whose ID is the oldest outstanding one returns at once; one whose ID is not stays
  blocked as long as nothing happens.
\<close>

theorem noreply_wait_barrier:
  "(tracker_inv c \<and> noreply_wait p schedule c = (Some (Inr ()), c') \<longrightarrow>
      token p \<notin> dom (queries c)
      \<and> oldest_outstanding_query_id c' = id_value p
      \<and> (\<forall>i \<in> set (outstanding_query_ids c'). \<not> i < id_value p))
   \<and> (cache_id c = query_cache p \<and> token p \<notin> dom (queries c) \<longrightarrow>
      (oldest_outstanding_query_id c = id_value p \<longrightarrow>
         fst (noreply_wait p schedule c) = Some (Inr ()))
      \<and> (oldest_outstanding_query_id c \<noteq> id_value p \<longrightarrow> fst (noreply_wait p [] c) = None))"
proof (intro conjI impI)
  assume a: "tracker_inv c \<and> noreply_wait p schedule c = (Some (Inr ()), c')"
  let ?c = "record_effect (Run_until_satisfied (id_value p)) (record_effect (Queries_find (token p)) c)"
  from a have absent: "queries c (token p) = None"
    and wait: "run_until_satisfied (\<lambda>v. v = id_value p) schedule ?c = (Some (Inr ()), c')"
    by (auto simp add: noreply_wait_def queries_find_def split: if_splits option.splits)
  from wait have oldest: "oldest_outstanding_query_id c' = id_value p"
    by (rule run_until_satisfied_returns)
  from a have "tracker_inv ?c"
    by (simp add: tracker_inv_def record_effect_def)
  then have "tracker_inv (snd (run_until_satisfied (\<lambda>v. v = id_value p) schedule ?c))"
    by (rule run_until_satisfied_tracker_inv)
  with wait have inv: "tracker_inv c'"
    by simp
  have "\<not> i < id_value p" if "i \<in> set (outstanding_query_ids c')" for i
  proof -
    from that have "oldest_of (next_query_id c') (outstanding_query_ids c') \<le> i"
      by (rule oldest_of_le)
    with inv oldest show ?thesis
      by (simp add: tracker_inv_def)
  qed
  with absent oldest
  show "token p \<notin> dom (queries c)" and "oldest_outstanding_query_id c' = id_value p"
    and "\<forall>i \<in> set (outstanding_query_ids c'). \<not> i < id_value p"
    by auto
next
  assume a: "cache_id c = query_cache p \<and> token p \<notin> dom (queries c)"
    and oldest: "oldest_outstanding_query_id c = id_value p"
  from a have own: "cache_id c = query_cache p" and absent: "queries c (token p) = None"
    by (simp_all add: domIff)
  from own absent oldest show "fst (noreply_wait p schedule c) = Some (Inr ())"
    by (cases schedule) (simp_all add: noreply_wait_def queries_find_def record_effect_def)
next
  assume a: "cache_id c = query_cache p \<and> token p \<notin> dom (queries c)"
    and other: "oldest_outstanding_query_id c \<noteq> id_value p"
  from a have own: "cache_id c = query_cache p" and absent: "queries c (token p) = None"
    by (simp_all add: domIff)
  from own absent other show "fst (noreply_wait p [] c) = None"
    by (simp add: noreply_wait_def queries_find_def record_effect_def)
qed

text \<open>In the sample session, IDs 0 and 1 are outstanding and the NOREPLY_WAIT has ID 1:
  it is blocked, and returns once the owner of ID 0 has released it.\<close>

theorem noreply_wait_barrier_witness:
  "tracker_inv ex_cache
   \<and> fst (noreply_wait ex_params [] ex_cache) = None
   \<and> fst (noreply_wait ex_params [Query_id_released 0] ex_cache) = Some (Inr ())
   \<and> oldest_outstanding_query_id (snd (noreply_wait ex_params [Query_id_released 0] ex_cache)) = 1
   \<and> outstanding_query_ids (snd (noreply_wait ex_params [Query_id_released 0] ex_cache)) = [1]"
proof -
  have inv: "tracker_inv ex_cache"
    by (simp add: tracker_inv_def ex_cache_eq oldest_of_def)
  have own: "cache_id ex_cache = query_cache ex_params \<and> token ex_params \<notin> dom (queries ex_cache)"
    and other: "oldest_outstanding_query_id ex_cache \<noteq> id_value ex_params"
    and mine: "id_value ex_params = 1"
    by (simp_all add: ex_cache_eq ex_params_def)
  have returned: "noreply_wait ex_params [Query_id_released 0] ex_cache =
      (Some (Inr ()), snd (noreply_wait ex_params [Query_id_released 0] ex_cache))"
    and outs: "outstanding_query_ids (snd (noreply_wait ex_params [Query_id_released 0] ex_cache)) = [1]"
    by (simp_all add: noreply_wait_def cache_unfold ex_cache_eq ex_params_def oldest_of_def)
  from noreply_wait_barrier [where c = ex_cache and p = ex_params and schedule = "[]"] own other
  have 1: "fst (noreply_wait ex_params [] ex_cache) = None"
    by blast
  from noreply_wait_barrier [where c = ex_cache and p = ex_params
      and schedule = "[Query_id_released 0]"
      and c' = "snd (noreply_wait ex_params [Query_id_released 0] ex_cache)"] inv returned
  have 2: "oldest_outstanding_query_id
      (snd (noreply_wait ex_params [Query_id_released 0] ex_cache)) = id_value ex_params"
    by blast
  from returned have 3: "fst (noreply_wait ex_params [Query_id_released 0] ex_cache) = Some (Inr ())"
    by (metis fst_conv)
  from inv 1 2 3 outs mine show ?thesis
    by simp
qed

section \<open>The end of a handle\<close>





end
